theory Spec2Isabelle
  imports Complex_Main "HOL-Library.Sublist" "HOL-Library.AList" "HOL-Library.Log_Nat"
begin

section \<open>Data model\<close>

text \<open>
  The application roster of \<^verbatim>\<open>config/applications.json\<close>. An application carries a
  name, its container-name fragments and an optional database descriptor. The fields
  \<^verbatim>\<open>backupSchedule\<close> and \<^verbatim>\<open>retentionDays\<close> may be absent from a descriptor.
  The descriptor's \<^verbatim>\<open>type\<close> and \<^verbatim>\<open>database\<close> fields are called \<open>dbtype\<close> and
  \<open>dbname\<close> here.
\<close>

record db_descriptor =
  dbtype :: string
  container :: string
  dbname :: string
  username :: string
  password :: string
  backupSchedule :: "string option"
  retentionDays :: "int option"

record application =
  name :: string
  containers :: "string list"
  database :: "db_descriptor option"

text \<open>
  Every \<^verbatim>\<open>throw\<close> of the services is a value of this type. The constructors are named
  after the error kinds of the specification; \<open>TypeError\<close> is the JavaScript runtime's
  error for reading a property of \<^verbatim>\<open>undefined\<close>.
\<close>

datatype error =
    ApplicationNotFound string
  | NoDatabaseConfigured string
  | UnsupportedEngineKind string
  | EmptyArtifact
  | ArtifactNotFound "string list"
  | ProcessExecutionFailure string
  | FilesystemFailure string
  | TypeError string

fun message :: "error \<Rightarrow> string" where
  "message (ApplicationNotFound n) = ''Application '' @ n @ '' not found in configuration''"
| "message (NoDatabaseConfigured n) = ''No database configured for application '' @ n"
| "message (UnsupportedEngineKind t) = ''Unsupported database type: '' @ t"
| "message EmptyArtifact = ''Backup file is empty''"
| "message (ArtifactNotFound p) = ''ENOENT: no such file or directory''"
| "message (ProcessExecutionFailure m) = m"
| "message (FilesystemFailure m) = m"
| "message (TypeError m) = m"

section \<open>Strings\<close>

text \<open>\<^verbatim>\<open>s.includes(c)\<close>: \<open>c\<close> occurs in \<open>s\<close> as a contiguous run of characters.\<close>

definition str_includes :: "string \<Rightarrow> string \<Rightarrow> bool" where
  "str_includes s c = sublist c s"

text \<open>\<^verbatim>\<open>toLowerCase\<close> on the ASCII letters.\<close>

definition lower_char :: "char \<Rightarrow> char" where
  "lower_char c =
     (let n = (of_char c :: nat) in if 65 \<le> n \<and> n \<le> 90 then char_of (n + 32) else c)"

definition toLowerCase :: "string \<Rightarrow> string" where
  "toLowerCase s = map lower_char s"

section \<open>Container attribution (dockerMonitor.js)\<close>

text \<open>
  \<^verbatim>\<open>containerName.replace('/', '')\<close> with a string pattern removes the first
  occurrence of the slash, wherever it is.
\<close>

definition cleanName :: "string \<Rightarrow> string" where
  "cleanName containerName = remove1 (CHR ''/'') containerName"

text \<open>The \<^verbatim>\<open>for (const app of config.applications)\<close> loop of findApplicationForContainer.\<close>

fun scanApplications :: "application list \<Rightarrow> string \<Rightarrow> string option" where
  "scanApplications [] cn = None"
| "scanApplications (app # rest) cn =
     (if list_ex (\<lambda>c. str_includes cn c \<or> str_includes c cn) (containers app)
      then Some (name app)
      else if (case database app of None \<Rightarrow> False
               | Some d \<Rightarrow> str_includes cn (container d))
      then Some (name app)
      else scanApplications rest cn)"

definition findApplicationForContainer :: "application list \<Rightarrow> string \<Rightarrow> string option" where
  "findApplicationForContainer apps containerName = scanApplications apps (cleanName containerName)"

text \<open>
  The \<^verbatim>\<open>application\<close> field of a container record in getContainers:
  \<^verbatim>\<open>application || 'unknown'\<close>. The empty string is falsy as \<^verbatim>\<open>null\<close> is.
\<close>

definition resolvedApplication :: "application list \<Rightarrow> string \<Rightarrow> string" where
  "resolvedApplication apps containerName =
     (case findApplicationForContainer apps containerName of
        None \<Rightarrow> ''unknown''
      | Some n \<Rightarrow> if n = [] then ''unknown'' else n)"

text \<open>
  The matching rule in the specification's words: some declared fragment is a substring
  of the name or the name is a substring of the fragment, or the database container name
  is a substring of the name.
\<close>

definition spec_matches :: "string \<Rightarrow> application \<Rightarrow> bool" where
  "spec_matches n app \<longleftrightarrow>
     (\<exists>c \<in> set (containers app). sublist c n \<or> sublist n c) \<or>
     (case database app of None \<Rightarrow> False | Some d \<Rightarrow> sublist (container d) n)"

section \<open>Command builder (backupService.js)\<close>

text \<open>
  The three builders destructure \<^verbatim>\<open>app.database\<close>; they are only called after the
  descriptor has been found present, so they take the descriptor. The destination is
  the rendered path of the artifact.
\<close>

definition getPostgreSQLBackupCommand :: "db_descriptor \<Rightarrow> string \<Rightarrow> string" where
  "getPostgreSQLBackupCommand d backupFile =
     ''docker exec '' @ container d @ '' pg_dump -U '' @ username d @ '' '' @ dbname d
       @ '' | gzip > '' @ backupFile"

definition getMySQLBackupCommand :: "db_descriptor \<Rightarrow> string \<Rightarrow> string" where
  "getMySQLBackupCommand d backupFile =
     ''docker exec '' @ container d @ '' mysqldump -u '' @ username d @ '' -p'' @ password d
       @ '' '' @ dbname d @ '' | gzip > '' @ backupFile"

definition getMongoDBBackupCommand :: "db_descriptor \<Rightarrow> string \<Rightarrow> string" where
  "getMongoDBBackupCommand d backupFile =
     ''docker exec '' @ container d @ '' mongodump --db '' @ dbname d
       @ '' --archive | gzip > '' @ backupFile"

text \<open>
  The \<^verbatim>\<open>switch (app.database.type.toLowerCase())\<close> of createBackup: the artifact's file
  name (from the timestamp) and the command, or the error of the default branch.
  \<open>render\<close> turns the artifact's file name into the path written into the command.
\<close>

definition backupSwitch ::
  "db_descriptor \<Rightarrow> string \<Rightarrow> (string \<Rightarrow> string) \<Rightarrow> error + (string \<times> string)" where
  "backupSwitch d timestamp render =
     (let t = toLowerCase (dbtype d) in
      if t = ''postgresql'' then
        (let f = ''backup-'' @ timestamp @ ''.sql.gz'' in Inr (f, getPostgreSQLBackupCommand d (render f)))
      else if t = ''mysql'' then
        (let f = ''backup-'' @ timestamp @ ''.sql.gz'' in Inr (f, getMySQLBackupCommand d (render f)))
      else if t = ''mongodb'' then
        (let f = ''backup-'' @ timestamp @ ''.archive.gz'' in Inr (f, getMongoDBBackupCommand d (render f)))
      else Inl (UnsupportedEngineKind (dbtype d)))"

text \<open>The \<^verbatim>\<open>switch\<close> of restoreBackup.\<close>

definition restoreSwitch :: "db_descriptor \<Rightarrow> string \<Rightarrow> error + string" where
  "restoreSwitch d backupPath =
     (let t = toLowerCase (dbtype d) in
      if t = ''postgresql'' then
        Inr (''gunzip < '' @ backupPath @ '' | docker exec -i '' @ container d @ '' psql -U ''
               @ username d @ '' '' @ dbname d)
      else if t = ''mysql'' then
        Inr (''gunzip < '' @ backupPath @ '' | docker exec -i '' @ container d @ '' mysql -u ''
               @ username d @ '' -p'' @ password d @ '' '' @ dbname d)
      else if t = ''mongodb'' then
        Inr (''gunzip < '' @ backupPath @ '' | docker exec -i '' @ container d
               @ '' mongorestore --archive --db '' @ dbname d)
      else Inl (UnsupportedEngineKind (dbtype d)))"

section \<open>Configuration and platform\<close>

text \<open>
  \<^verbatim>\<open>config.js\<close>: the roster and the process-wide defaults, read once at startup.
\<close>

record config =
  applications :: "application list"
  backup_dir :: string
  backup_defaultSchedule :: string
  backup_defaultRetentionDays :: int

text \<open>
  A file or a directory below the backup root, with the two attributes \<^verbatim>\<open>fs.stat\<close>
  is asked for (\<^verbatim>\<open>size\<close>, \<^verbatim>\<open>birthtime\<close> in milliseconds). A directory lists its entries in
  the order \<^verbatim>\<open>fs.readdir\<close> returns them.
\<close>

datatype node =
    File (fsize: nat) (birthtime: int)
  | Dir (fsize: nat) (birthtime: int) (entries: "(string \<times> node) list")

text \<open>
  What the services take from their runtime: the system clock (the \<open>k\<close>-th reading of
  \<^verbatim>\<open>new Date()\<close>), \<^verbatim>\<open>Date.prototype.toISOString\<close>, the external process behind
  \<^verbatim>\<open>execAsync\<close> (given the command line and the backup root, it leaves a new backup root
  and either rejects with a message, as on a non-zero exit status, or resolves with
  stdout and stderr), the size the file system reports for a fresh directory,
  \<^verbatim>\<open>cron.validate\<close> of node-cron, and the local time zone: \<open>localTZA t isUTC\<close> is
  ECMAScript's LocalTZA, the offset of local time from UTC in milliseconds at the UTC
  instant \<open>t\<close> (\<open>isUTC\<close>) or at the local time \<open>t\<close> (otherwise).
\<close>

record platform =
  clock :: "nat \<Rightarrow> int"
  toISOString :: "int \<Rightarrow> string"
  execAsync :: "string \<Rightarrow> node \<Rightarrow> node \<times> (string + string \<times> string)"
  dirSize :: nat
  cronValidate :: "string \<Rightarrow> bool"
  localTZA :: "int \<Rightarrow> bool \<Rightarrow> int"

text \<open>
  The mutable world of the backup service: the contents of the backup root, the command
  lines handed to the process executor so far, and the number of clock readings taken.
\<close>

record world =
  files :: node
  execLog :: "string list"
  ticks :: nat

definition now :: "platform \<Rightarrow> world \<Rightarrow> int \<times> world" where
  "now pf w = (clock pf (ticks w), w\<lparr>ticks := Suc (ticks w)\<rparr>)"

section \<open>File system\<close>

text \<open>
  The calls of Node's \<^verbatim>\<open>fs\<close> and \<^verbatim>\<open>path\<close> modules that the service makes, on the
  tree below the backup root. For the file system a path is the list of its segments
  below the backup root, and \<^verbatim>\<open>path.join\<close> skips an empty segment.
\<close>

type_synonym path = "string list"

definition path_join :: "path \<Rightarrow> string \<Rightarrow> path" where
  "path_join p s = (if s = [] then p else p @ [s])"

text \<open>
  \<^verbatim>\<open>path.join\<close> on strings (POSIX): the non-empty arguments are joined by slashes and
  the result is normalised. The normalisation drops empty and \<^verbatim>\<open>.\<close> segments, lets a
  \<^verbatim>\<open>..\<close> segment take away the segment before it (above the start of a relative
  path it stays, above the root it is dropped), and keeps a leading and a trailing
  slash; the empty path is \<^verbatim>\<open>.\<close>.
\<close>

fun splitSlash :: "string \<Rightarrow> string list" where
  "splitSlash [] = [[]]"
| "splitSlash (c # cs) =
     (if c = CHR ''/'' then [] # splitSlash cs
      else (case splitSlash cs of [] \<Rightarrow> [[c]] | x # xs \<Rightarrow> (c # x) # xs))"

fun joinSlash :: "string list \<Rightarrow> string" where
  "joinSlash [] = []"
| "joinSlash [x] = x"
| "joinSlash (x # y # ys) = x @ ''/'' @ joinSlash (y # ys)"

definition normalizeStep :: "bool \<Rightarrow> string list \<Rightarrow> string \<Rightarrow> string list" where
  "normalizeStep allowAboveRoot res seg =
     (if seg = [] \<or> seg = ''.'' then res
      else if seg = ''..'' then
        (if res \<noteq> [] \<and> last res \<noteq> ''..'' then butlast res
         else if allowAboveRoot then res @ [''..''] else res)
      else res @ [seg])"

definition posix_normalize :: "string \<Rightarrow> string" where
  "posix_normalize p =
     (if p = [] then ''.''
      else
        (let isAbsolute = (hd p = CHR ''/'');
             trailingSeparator = (last p = CHR ''/'');
             q = joinSlash (foldl (normalizeStep (\<not> isAbsolute)) [] (splitSlash p))
         in if q = [] then
              (if isAbsolute then ''/'' else if trailingSeparator then ''./'' else ''.'')
            else (if isAbsolute then ''/'' else []) @ q
                   @ (if trailingSeparator then ''/'' else [])))"

definition posix_join :: "string list \<Rightarrow> string" where
  "posix_join args =
     (let joined = joinSlash (filter (\<lambda>a. a \<noteq> []) args)
      in if joined = [] then ''.'' else posix_normalize joined)"

text \<open>
  A path as the string written into a command line by createBackup: the backup
  directory joined with the application's name, and that joined with the file's name.
\<close>

definition renderPath :: "config \<Rightarrow> path \<Rightarrow> string" where
  "renderPath cfg p = foldl (\<lambda>a s. posix_join [a, s]) (backup_dir cfg) p"

text \<open>\<^verbatim>\<open>fs.stat\<close> and \<^verbatim>\<open>fs.access\<close>: the node at a path, if there is one.\<close>

fun lookup :: "node \<Rightarrow> path \<Rightarrow> node option" where
  "lookup n [] = Some n"
| "lookup (File s b) (x # xs) = None"
| "lookup (Dir s b es) (x # xs) =
     (case map_of es x of None \<Rightarrow> None | Some n \<Rightarrow> lookup n xs)"

text \<open>\<^verbatim>\<open>stat.isDirectory()\<close>.\<close>

fun isDirectory :: "node \<Rightarrow> bool" where
  "isDirectory (File s b) = False"
| "isDirectory (Dir s b es) = True"

text \<open>
  \<^verbatim>\<open>fs.mkdir(p, { recursive: true })\<close>: existing directories are kept, missing ones are
  created (born at \<open>t\<close>), a regular file on the way is an error (\<open>None\<close>).
\<close>

fun mkdir_p :: "nat \<Rightarrow> int \<Rightarrow> path \<Rightarrow> node \<Rightarrow> node option" where
  "mkdir_p sz t [] (Dir s b es) = Some (Dir s b es)"
| "mkdir_p sz t [] (File s b) = None"
| "mkdir_p sz t (x # xs) (File s b) = None"
| "mkdir_p sz t (x # xs) (Dir s b es) =
     (case map_of es x of
        None \<Rightarrow>
          (case mkdir_p sz t xs (Dir sz t []) of
             None \<Rightarrow> None
           | Some n \<Rightarrow> Some (Dir s b (es @ [(x, n)])))
      | Some n \<Rightarrow>
          (case mkdir_p sz t xs n of
             None \<Rightarrow> None
           | Some n' \<Rightarrow> Some (Dir s b (AList.update x n' es))))"

text \<open>\<^verbatim>\<open>fs.unlink\<close>: removes a regular file; anything else is an error (\<open>None\<close>).\<close>

fun unlink :: "path \<Rightarrow> node \<Rightarrow> node option" where
  "unlink [] n = None"
| "unlink (x # xs) (File s b) = None"
| "unlink [x] (Dir s b es) =
     (case map_of es x of
        Some (File s' b') \<Rightarrow> Some (Dir s b (AList.delete x es))
      | _ \<Rightarrow> None)"
| "unlink (x # y # ys) (Dir s b es) =
     (case map_of es x of
        None \<Rightarrow> None
      | Some n \<Rightarrow>
          (case unlink (y # ys) n of
             None \<Rightarrow> None
           | Some n' \<Rightarrow> Some (Dir s b (AList.update x n' es))))"

section \<open>Backup service (backupService.js)\<close>

text \<open>
  The calls of the logger change neither results nor files and are left out; so is the
  test on the error stream (lines 73 to 75), which only logs a warning.
\<close>

record backup =
  b_application :: string
  b_filename :: string
  b_path :: path
  b_size :: nat
  b_created :: int

definition backupOf :: "string \<Rightarrow> path \<Rightarrow> string \<times> node \<Rightarrow> backup" where
  "backupOf app dir e =
     \<lparr>b_application = app, b_filename = fst e, b_path = path_join dir (fst e),
      b_size = fsize (snd e), b_created = birthtime (snd e)\<rparr>"

text \<open>\<^verbatim>\<open>backups.sort((a, b) => b.created - a.created)\<close>: stable, newest first.\<close>

definition sortBackups :: "backup list \<Rightarrow> backup list" where
  "sortBackups bs = sort_key (\<lambda>b. - b_created b) bs"

text \<open>
  listBackups. \<^verbatim>\<open>if (appName)\<close> is false for \<^verbatim>\<open>null\<close> and for the empty string. With a
  name, a directory that cannot be read gives the empty list; without one, every
  directory below the backup root is listed as an application.
\<close>

definition listBackups :: "string option \<Rightarrow> world \<Rightarrow> backup list" where
  "listBackups appName w =
     (if (case appName of None \<Rightarrow> False | Some n \<Rightarrow> n \<noteq> []) then
        (let n = the appName; appBackupDir = path_join [] n in
         case lookup (files w) appBackupDir of
           Some (Dir s b es) \<Rightarrow> sortBackups (map (backupOf n appBackupDir) es)
         | _ \<Rightarrow> [])
      else
        (case files w of
           Dir s b apps \<Rightarrow>
             sortBackups (concat (map (\<lambda>(app, nd).
               if isDirectory nd then map (backupOf app (path_join [] app)) (entries nd)
               else []) apps))
         | File s b \<Rightarrow> []))"

text \<open>
  \<^verbatim>\<open>cutoffDate.setDate(cutoffDate.getDate() - retentionDays)\<close> on \<^verbatim>\<open>new Date()\<close>, by
  the steps of ECMAScript's \<^verbatim>\<open>Date.prototype.setDate\<close>: the time value is taken to
  local time; MakeDay of its year, its month and its day of the month minus
  \<open>days\<close>, with the same time within the day, is the local time \<open>days\<close> times
  86400000 ms earlier; that local time is taken back to UTC; TimeClip makes the result
  an Invalid Date (\<open>None\<close>) when it is more than 8640000000000000 ms away from the
  epoch.
\<close>

definition cutoffDate :: "platform \<Rightarrow> int \<Rightarrow> int \<Rightarrow> int option" where
  "cutoffDate pf t days =
     (let localTime = t + localTZA pf t True;
          newDate = localTime - days * 86400000;
          u = newDate - localTZA pf newDate False
      in if \<bar>u\<bar> \<le> 8640000000000000 then Some u else None)"

text \<open>
  \<^verbatim>\<open>backup.created < cutoffDate\<close>: a comparison of two dates by their time values;
  it is false when the cutoff is an Invalid Date.
\<close>

definition createdBefore :: "int \<Rightarrow> int option \<Rightarrow> bool" where
  "createdBefore created cutoff = (case cutoff of None \<Rightarrow> False | Some u \<Rightarrow> created < u)"

text \<open>
  The loop of cleanupOldBackups: unlink every listed backup created before the cutoff,
  counting; the first failing unlink is thrown with the files deleted so far gone.
\<close>

fun cleanupLoop ::
  "int option \<Rightarrow> backup list \<Rightarrow> node \<Rightarrow> nat \<Rightarrow> (error + nat) \<times> node" where
  "cleanupLoop cutoff [] fs deletedCount = (Inr deletedCount, fs)"
| "cleanupLoop cutoff (b # bs) fs deletedCount =
     (if createdBefore (b_created b) cutoff then
        (case unlink (b_path b) fs of
           None \<Rightarrow> (Inl (FilesystemFailure ''unlink failed''), fs)
         | Some fs' \<Rightarrow> cleanupLoop cutoff bs fs' (deletedCount + 1))
      else cleanupLoop cutoff bs fs deletedCount)"

definition cleanupOldBackups ::
  "platform \<Rightarrow> string \<Rightarrow> int \<Rightarrow> world \<Rightarrow> (error + nat) \<times> world" where
  "cleanupOldBackups pf appName days w =
     (let backups = listBackups (Some appName) w;
          (t, w1) = now pf w;
          (r, fs') = cleanupLoop (cutoffDate pf t days) backups (files w1) 0
      in (r, w1\<lparr>files := fs'\<rparr>))"

text \<open>\<^verbatim>\<open>execAsync(command)\<close>: the command line is logged, the process acts on the files.\<close>

definition runCommand ::
  "platform \<Rightarrow> string \<Rightarrow> world \<Rightarrow> (error + string \<times> string) \<times> world" where
  "runCommand pf cmd w =
     (let (fs', r) = execAsync pf cmd (files w);
          w' = w\<lparr>files := fs', execLog := execLog w @ [cmd]\<rparr>
      in case r of
           Inl m \<Rightarrow> (Inl (ProcessExecutionFailure m), w')
         | Inr out \<Rightarrow> (Inr out, w'))"

record backup_result =
  r_application :: string
  r_file :: string
  r_size :: nat
  r_timestamp :: string

text \<open>\<^verbatim>\<open>.replace(/[:.]/g, '-')\<close> on the ISO timestamp.\<close>

definition dashed :: "string \<Rightarrow> string" where
  "dashed s = map (\<lambda>c. if c = CHR '':'' \<or> c = CHR ''.'' then CHR ''-'' else c) s"

text \<open>\<^verbatim>\<open>app.database.retentionDays || config.backup.defaultRetentionDays\<close>.\<close>

definition retentionOf :: "config \<Rightarrow> db_descriptor \<Rightarrow> int" where
  "retentionOf cfg d =
     (case retentionDays d of
        None \<Rightarrow> backup_defaultRetentionDays cfg
      | Some r \<Rightarrow> if r = 0 then backup_defaultRetentionDays cfg else r)"

text \<open>
  createBackup, from the execution of the command on (lines 69 to 95): run it, stat the
  artifact, refuse an empty one, clean up, report.
\<close>

definition executeBackup ::
  "config \<Rightarrow> platform \<Rightarrow> string \<Rightarrow> db_descriptor \<Rightarrow> path \<Rightarrow> string \<Rightarrow> world
     \<Rightarrow> (error + backup_result) \<times> world" where
  "executeBackup cfg pf appName d backupFile backupCommand w =
     (case runCommand pf backupCommand w of
        (Inl e, w1) \<Rightarrow> (Inl e, w1)
      | (Inr out, w1) \<Rightarrow>
          (case lookup (files w1) backupFile of
             None \<Rightarrow> (Inl (FilesystemFailure ''ENOENT: no such file or directory''), w1)
           | Some stats \<Rightarrow>
               if fsize stats = 0 then (Inl EmptyArtifact, w1)
               else
                 (case cleanupOldBackups pf appName (retentionOf cfg d) w1 of
                    (Inl e, w2) \<Rightarrow> (Inl e, w2)
                  | (Inr deleted, w2) \<Rightarrow>
                      (let (t, w3) = now pf w2 in
                       (Inr \<lparr>r_application = appName,
                             r_file = renderPath cfg backupFile,
                             r_size = fsize stats,
                             r_timestamp = toISOString pf t\<rparr>, w3)))))"

text \<open>createBackup (lines 28 to 100).\<close>

definition createBackup ::
  "config \<Rightarrow> platform \<Rightarrow> string \<Rightarrow> world \<Rightarrow> (error + backup_result) \<times> world" where
  "createBackup cfg pf appName w =
     (case find (\<lambda>a. name a = appName) (applications cfg) of
        None \<Rightarrow> (Inl (ApplicationNotFound appName), w)
      | Some app \<Rightarrow>
          (case database app of
             None \<Rightarrow> (Inl (NoDatabaseConfigured appName), w)
           | Some d \<Rightarrow>
               (let (t, w1) = now pf w;
                    timestamp = dashed (toISOString pf t);
                    appBackupDir = path_join [] appName
                in case mkdir_p (dirSize pf) t appBackupDir (files w1) of
                     None \<Rightarrow> (Inl (FilesystemFailure ''mkdir failed''), w1)
                   | Some fs' \<Rightarrow>
                       (let w2 = w1\<lparr>files := fs'\<rparr> in
                        case backupSwitch d timestamp
                               (\<lambda>f. renderPath cfg (path_join appBackupDir f)) of
                          Inl e \<Rightarrow> (Inl e, w2)
                        | Inr (f, backupCommand) \<Rightarrow>
                            executeBackup cfg pf appName d (path_join appBackupDir f)
                              backupCommand w2))))"

text \<open>
  An entry of the list createAllBackups returns: the result of a backup, or
  \<^verbatim>\<open>{ success: false, application, error }\<close>.
\<close>

datatype entry = Succeeded backup_result | Failed string string

fun createAllLoop ::
  "config \<Rightarrow> platform \<Rightarrow> application list \<Rightarrow> world \<Rightarrow> entry list \<Rightarrow> entry list \<times> world" where
  "createAllLoop cfg pf [] w results = (results, w)"
| "createAllLoop cfg pf (app # rest) w results =
     (case database app of
        None \<Rightarrow> createAllLoop cfg pf rest w results
      | Some d \<Rightarrow>
          (case createBackup cfg pf (name app) w of
             (Inr result, w') \<Rightarrow> createAllLoop cfg pf rest w' (results @ [Succeeded result])
           | (Inl e, w') \<Rightarrow>
               createAllLoop cfg pf rest w' (results @ [Failed (name app) (message e)])))"

definition createAllBackups :: "config \<Rightarrow> platform \<Rightarrow> world \<Rightarrow> entry list \<times> world" where
  "createAllBackups cfg pf w = createAllLoop cfg pf (applications cfg) w []"

record restore_result =
  rs_application :: string
  rs_backup :: string
  rs_timestamp :: string

text \<open>
  restoreBackup (lines 241 to 289). \<^verbatim>\<open>app.database.type\<close> on an application without a
  descriptor is the runtime's TypeError.
\<close>

definition restoreBackup ::
  "config \<Rightarrow> platform \<Rightarrow> string \<Rightarrow> string \<Rightarrow> world \<Rightarrow> (error + restore_result) \<times> world" where
  "restoreBackup cfg pf appName filename w =
     (case find (\<lambda>a. name a = appName) (applications cfg) of
        None \<Rightarrow> (Inl (ApplicationNotFound appName), w)
      | Some app \<Rightarrow>
          (let backupPath = path_join (path_join [] appName) filename in
           case lookup (files w) backupPath of
             None \<Rightarrow> (Inl (ArtifactNotFound backupPath), w)
           | Some nd \<Rightarrow>
               (case database app of
                  None \<Rightarrow>
                    (Inl (TypeError ''Cannot read properties of undefined (reading 'type')''), w)
                | Some d \<Rightarrow>
                    (case restoreSwitch d (posix_join [backup_dir cfg, appName, filename]) of
                       Inl e \<Rightarrow> (Inl e, w)
                     | Inr restoreCommand \<Rightarrow>
                         (case runCommand pf restoreCommand w of
                            (Inl e, w1) \<Rightarrow> (Inl e, w1)
                          | (Inr out, w1) \<Rightarrow>
                              (let (t, w2) = now pf w1 in
                               (Inr \<lparr>rs_application = appName, rs_backup = filename,
                                     rs_timestamp = toISOString pf t\<rparr>, w2)))))))"

section \<open>Scheduler (scheduler.js)\<close>

text \<open>
  An entry of \<^verbatim>\<open>this.jobs\<close>, as getJobs shows it (the cron handle is left out).
\<close>

record job =
  j_application :: string
  j_type :: string
  j_schedule :: string

text \<open>
  scheduleBackup: \<^verbatim>\<open>app.database.backupSchedule || config.backup.defaultSchedule\<close>, then
  the validation; an invalid expression is logged and nothing is scheduled.
\<close>

definition scheduleBackup ::
  "config \<Rightarrow> platform \<Rightarrow> application \<Rightarrow> job list \<Rightarrow> error + job list" where
  "scheduleBackup cfg pf app jobs =
     (case database app of
        None \<Rightarrow> Inl (TypeError ''Cannot read properties of undefined (reading 'backupSchedule')'')
      | Some d \<Rightarrow>
          (let schedule =
                 (case backupSchedule d of
                    None \<Rightarrow> backup_defaultSchedule cfg
                  | Some s \<Rightarrow> if s = [] then backup_defaultSchedule cfg else s)
           in if \<not> cronValidate pf schedule then Inr jobs
              else Inr (jobs @ [\<lparr>j_application = name app, j_type = ''backup'',
                                 j_schedule = schedule\<rparr>])))"

text \<open>
  The \<^verbatim>\<open>forEach\<close> of init, guarded by
  \<^verbatim>\<open>app.database && app.database.backupSchedule\<close>.
\<close>

fun initLoop ::
  "config \<Rightarrow> platform \<Rightarrow> application list \<Rightarrow> job list \<Rightarrow> error + job list" where
  "initLoop cfg pf [] jobs = Inr jobs"
| "initLoop cfg pf (app # rest) jobs =
     (if (case database app of
            None \<Rightarrow> False
          | Some d \<Rightarrow> (case backupSchedule d of None \<Rightarrow> False | Some s \<Rightarrow> s \<noteq> []))
      then (case scheduleBackup cfg pf app jobs of
              Inl e \<Rightarrow> Inl e
            | Inr jobs' \<Rightarrow> initLoop cfg pf rest jobs')
      else initLoop cfg pf rest jobs)"

definition init :: "config \<Rightarrow> platform \<Rightarrow> job list \<Rightarrow> error + job list" where
  "init cfg pf jobs = initLoop cfg pf (applications cfg) jobs"

section \<open>Numbers of the runtime\<close>

text \<open>
  A JavaScript number: a finite value, an infinity or NaN. Finite values are rationals
  here: the rounding of IEEE doubles and the sign of zero are not modelled. A field
  missing from a stats object reads as \<^verbatim>\<open>undefined\<close>, which arithmetic turns into NaN.
\<close>

datatype jsnum = Num rat | PosInf | NegInf | NaN

fun js_sub :: "jsnum \<Rightarrow> jsnum \<Rightarrow> jsnum" where
  "js_sub (Num x) (Num y) = Num (x - y)"
| "js_sub NaN b = NaN"
| "js_sub a NaN = NaN"
| "js_sub PosInf PosInf = NaN"
| "js_sub NegInf NegInf = NaN"
| "js_sub PosInf b = PosInf"
| "js_sub NegInf b = NegInf"
| "js_sub (Num x) PosInf = NegInf"
| "js_sub (Num x) NegInf = PosInf"

fun js_neg :: "jsnum \<Rightarrow> jsnum" where
  "js_neg (Num x) = Num (- x)"
| "js_neg PosInf = NegInf"
| "js_neg NegInf = PosInf"
| "js_neg NaN = NaN"

fun js_mul :: "jsnum \<Rightarrow> jsnum \<Rightarrow> jsnum" where
  "js_mul (Num x) (Num y) = Num (x * y)"
| "js_mul NaN b = NaN"
| "js_mul a NaN = NaN"
| "js_mul (Num x) b = (if x = 0 then NaN else if 0 < x then b else js_neg b)"
| "js_mul a (Num y) = (if y = 0 then NaN else if 0 < y then a else js_neg a)"
| "js_mul PosInf b = b"
| "js_mul NegInf b = js_neg b"

fun js_div :: "jsnum \<Rightarrow> jsnum \<Rightarrow> jsnum" where
  "js_div (Num x) (Num y) =
     (if y \<noteq> 0 then Num (x / y)
      else if x = 0 then NaN else if 0 < x then PosInf else NegInf)"
| "js_div NaN b = NaN"
| "js_div a NaN = NaN"
| "js_div (Num x) b = Num 0"
| "js_div PosInf (Num y) = (if 0 \<le> y then PosInf else NegInf)"
| "js_div NegInf (Num y) = (if 0 \<le> y then NegInf else PosInf)"
| "js_div a b = NaN"

text \<open>\<^verbatim>\<open>x > 0\<close>: false for NaN.\<close>

fun js_positive :: "jsnum \<Rightarrow> bool" where
  "js_positive (Num x) = (0 < x)"
| "js_positive PosInf = True"
| "js_positive NegInf = False"
| "js_positive NaN = False"

text \<open>\<^verbatim>\<open>x || 0\<close>: zero, NaN and \<^verbatim>\<open>undefined\<close> are falsy.\<close>

fun js_or_zero :: "jsnum \<Rightarrow> jsnum" where
  "js_or_zero (Num x) = Num x"
| "js_or_zero NaN = Num 0"
| "js_or_zero a = a"

text \<open>\<^verbatim>\<open>Math.round\<close>: the nearest integer, halves towards plus infinity.\<close>

fun js_round :: "jsnum \<Rightarrow> jsnum" where
  "js_round (Num x) = Num (of_int \<lfloor>x + 1 / 2\<rfloor>)"
| "js_round a = a"

section \<open>Container statistics (dockerMonitor.js)\<close>

text \<open>
  The fields of a \<^verbatim>\<open>stats\<close> snapshot that getContainers reads for the two
  percentages. The container record carries them rendered by \<^verbatim>\<open>toFixed(2)\<close>; the
  functions below are the numbers before rendering.
\<close>

record stats =
  cpu_total_usage :: jsnum
  precpu_total_usage :: jsnum
  cpu_system_cpu_usage :: jsnum
  precpu_system_cpu_usage :: jsnum
  online_cpus :: jsnum
  memory_usage :: jsnum
  memory_limit :: jsnum

definition cpuPercent :: "stats \<Rightarrow> jsnum" where
  "cpuPercent st =
     (let cpuDelta = js_sub (cpu_total_usage st) (precpu_total_usage st);
          systemDelta = js_sub (cpu_system_cpu_usage st) (precpu_system_cpu_usage st)
      in if js_positive systemDelta
         then js_mul (js_mul (js_div cpuDelta systemDelta) (online_cpus st)) (Num 100)
         else Num 0)"

definition memoryPercent :: "stats \<Rightarrow> jsnum" where
  "memoryPercent st =
     (let memoryUsage = js_or_zero (memory_usage st);
          memoryLimit = js_or_zero (memory_limit st)
      in if js_positive memoryLimit
         then js_mul (js_div memoryUsage memoryLimit) (Num 100)
         else Num 0)"

section \<open>Double-precision arithmetic\<close>

text \<open>
  The network rates pass through \<^verbatim>\<open>Math.round\<close>, which is not continuous, so their
  arithmetic is taken as the runtime performs it: in IEEE 754 binary64, each operation
  rounded to the nearest double, ties to the even significand. A finite double is a
  rational number; \<open>dbl\<close> rounds a rational to the nearest double: with
  \<open>2 ^ e \<le> \<bar>x\<bar> < 2 ^ (e + 1)\<close> the doubles around \<open>x\<close> are the multiples of
  \<open>2 ^ (e - 52)\<close>, or of \<open>2 ^ (-1074)\<close> in the subnormal range, and a result of
  \<open>2 ^ 1024\<close> or more is an infinity.
\<close>

definition roundHalfEven :: "rat \<Rightarrow> int" where
  "roundHalfEven y =
     (let f = \<lfloor>y\<rfloor>; d = y - of_int f
      in if d < 1 / 2 then f else if 1 / 2 < d then f + 1 else if even f then f else f + 1)"

definition ilog2 :: "rat \<Rightarrow> int" where
  "ilog2 a =
     (let (p, q) = quotient_of a; k = bitlen p - bitlen q
      in if 2 powi k \<le> a then k else k - 1)"

definition dbl :: "rat \<Rightarrow> jsnum" where
  "dbl x =
     (if x = 0 then Num 0
      else
        (let a = \<bar>x\<bar>;
             ulp = 2 powi (max (ilog2 a - 52) (- 1074));
             r = of_int (roundHalfEven (a / ulp)) * ulp
         in if 2 powi 1024 \<le> r then (if 0 < x then PosInf else NegInf)
            else Num (if 0 < x then r else - r)))"

text \<open>Subtraction and division of doubles: the exact result, rounded.\<close>

definition d_sub :: "jsnum \<Rightarrow> jsnum \<Rightarrow> jsnum" where
  "d_sub a b = (case js_sub a b of Num z \<Rightarrow> dbl z | r \<Rightarrow> r)"

definition d_div :: "jsnum \<Rightarrow> jsnum \<Rightarrow> jsnum" where
  "d_div a b = (case js_div a b of Num z \<Rightarrow> dbl z | r \<Rightarrow> r)"

section \<open>Network rates (networkMonitor)\<close>

text \<open>
  An element of \<^verbatim>\<open>si.networkStats()\<close> (the fields the rates use), an entry of
  \<^verbatim>\<open>this.previousStats\<close>, and the fields of a reported interface that are computed.
  The descriptive fields copied from the inputs (operstate, addresses, error and drop
  counters) are left out.
\<close>

record iface_stats =
  iface :: string
  rx_bytes :: int
  tx_bytes :: int

record previous =
  p_rx_bytes :: int
  p_tx_bytes :: int
  p_timestamp :: int

record iface_report =
  interface :: string
  rxBytes :: int
  txBytes :: int
  rxSpeed :: jsnum
  txSpeed :: jsnum

record connection_counts =
  c_total :: nat
  c_established :: nat
  c_listening :: nat
  c_timeWait :: nat

record network_result =
  n_timestamp :: string
  interfaces :: "iface_report list"
  connections :: connection_counts

text \<open>
  The monitor's state. \<^verbatim>\<open>this.previousStats\<close> is a plain object created by
  \<^verbatim>\<open>{}\<close>: \<open>previousStats\<close> holds its own properties, and \<open>prototype\<close> the
  object that an assignment to the key \<^verbatim>\<open>__proto__\<close> has put in the place of
  \<^verbatim>\<open>Object.prototype\<close>, if any. \<open>m_ticks\<close> counts the readings of the clock
  (\<^verbatim>\<open>Date.now()\<close> and \<^verbatim>\<open>new Date()\<close>).
\<close>

record monitor =
  previousStats :: "string \<rightharpoonup> previous"
  prototype :: "previous option"
  cachedData :: "(network_result \<times> int) option"
  m_ticks :: nat

text \<open>The property names of \<^verbatim>\<open>Object.prototype\<close>.\<close>

definition objectPrototypeNames :: "string list" where
  "objectPrototypeNames =
     [''constructor'', ''__defineGetter__'', ''__defineSetter__'', ''hasOwnProperty'',
      ''__lookupGetter__'', ''__lookupSetter__'', ''isPrototypeOf'', ''propertyIsEnumerable'',
      ''toString'', ''valueOf'', ''__proto__'', ''toLocaleString'']"

text \<open>
  What \<^verbatim>\<open>this.previousStats[key]\<close> reads: nothing or a falsy value (\<open>Absent\<close>), a stored
  sample, or a truthy value that is no sample (\<open>Opaque\<close>: an inherited function,
  \<^verbatim>\<open>Object.prototype\<close> itself, or a non-zero number inherited from a sample that has
  become the prototype), whose \<^verbatim>\<open>rx_bytes\<close>, \<^verbatim>\<open>tx_bytes\<close> and \<^verbatim>\<open>timestamp\<close> are
  \<^verbatim>\<open>undefined\<close>.
\<close>

datatype previous_read = Absent | Sample previous | Opaque

definition readPrevious :: "monitor \<Rightarrow> string \<Rightarrow> previous_read" where
  "readPrevious m key =
     (case previousStats m key of
        Some p \<Rightarrow> Sample p
      | None \<Rightarrow>
          if key = ''__proto__'' then
            (case prototype m of None \<Rightarrow> Opaque | Some p \<Rightarrow> Sample p)
          else if key \<in> set objectPrototypeNames then Opaque
          else
            (case prototype m of
               None \<Rightarrow> Absent
             | Some p \<Rightarrow>
                 if key = ''rx_bytes'' then (if p_rx_bytes p = 0 then Absent else Opaque)
                 else if key = ''tx_bytes'' then (if p_tx_bytes p = 0 then Absent else Opaque)
                 else if key = ''timestamp'' then (if p_timestamp p = 0 then Absent else Opaque)
                 else Absent))"

text \<open>\<^verbatim>\<open>this.previousStats[key] = sample\<close>.\<close>

definition writePrevious :: "monitor \<Rightarrow> string \<Rightarrow> previous \<Rightarrow> monitor" where
  "writePrevious m key sample =
     (if key = ''__proto__'' then m\<lparr>prototype := Some sample\<rparr>
      else m\<lparr>previousStats := (previousStats m)(key \<mapsto> sample)\<rparr>)"

text \<open>
  The callback of \<^verbatim>\<open>networkStats.map\<close> for one interface. \<^verbatim>\<open>Date.now()\<close> is read
  once for the elapsed time, when the previous entry is truthy, and once more for the
  sample that is stored.
\<close>

definition observe :: "platform \<Rightarrow> monitor \<Rightarrow> iface_stats \<Rightarrow> iface_report \<times> monitor" where
  "observe pf m i =
     (let (rx, tx, m1) =
            (case readPrevious m (iface i) of
               Absent \<Rightarrow> (Num 0, Num 0, m)
             | Sample p \<Rightarrow>
                 (let timeDiff =
                        d_div (d_sub (Num (of_int (clock pf (m_ticks m))))
                                     (Num (of_int (p_timestamp p))))
                              (Num 1000)
                  in (d_div (d_sub (Num (of_int (rx_bytes i))) (Num (of_int (p_rx_bytes p))))
                            timeDiff,
                      d_div (d_sub (Num (of_int (tx_bytes i))) (Num (of_int (p_tx_bytes p))))
                            timeDiff,
                      m\<lparr>m_ticks := Suc (m_ticks m)\<rparr>))
             | Opaque \<Rightarrow>
                 (let timeDiff =
                        d_div (d_sub (Num (of_int (clock pf (m_ticks m)))) NaN) (Num 1000)
                  in (d_div (d_sub (Num (of_int (rx_bytes i))) NaN) timeDiff,
                      d_div (d_sub (Num (of_int (tx_bytes i))) NaN) timeDiff,
                      m\<lparr>m_ticks := Suc (m_ticks m)\<rparr>)));
          stored = \<lparr>p_rx_bytes = rx_bytes i, p_tx_bytes = tx_bytes i,
                    p_timestamp = clock pf (m_ticks m1)\<rparr>
      in (\<lparr>interface = iface i, rxBytes = rx_bytes i, txBytes = tx_bytes i,
           rxSpeed = js_round rx, txSpeed = js_round tx\<rparr>,
          (writePrevious m1 (iface i) stored)\<lparr>m_ticks := Suc (m_ticks m1)\<rparr>))"

text \<open>\<^verbatim>\<open>networkStats.map\<close>: the interfaces of one poll, in order.\<close>

fun observeAll ::
  "platform \<Rightarrow> monitor \<Rightarrow> iface_stats list \<Rightarrow> iface_report list \<times> monitor" where
  "observeAll pf m [] = ([], m)"
| "observeAll pf m (i # rest) =
     (let (r, m1) = observe pf m i;
          (rs, m2) = observeAll pf m1 rest
      in (r # rs, m2))"

text \<open>
  getNetworkStats, given what \<^verbatim>\<open>si.networkStats()\<close> and \<^verbatim>\<open>si.networkConnections()\<close>
  (the states of the connections) have returned: the interfaces, the connection
  counts, the result stamped by \<^verbatim>\<open>new Date()\<close>, and the cache of the result with
  \<^verbatim>\<open>Date.now()\<close> read once more.
\<close>

definition getNetworkStats ::
  "platform \<Rightarrow> monitor \<Rightarrow> iface_stats list \<Rightarrow> string list \<Rightarrow> network_result \<times> monitor" where
  "getNetworkStats pf m networkStats conns =
     (let (stats, m1) = observeAll pf m networkStats;
          activeConnections =
            \<lparr>c_total = length conns,
             c_established = length (filter (\<lambda>c. c = ''ESTABLISHED'') conns),
             c_listening = length (filter (\<lambda>c. c = ''LISTEN'') conns),
             c_timeWait = length (filter (\<lambda>c. c = ''TIME_WAIT'') conns)\<rparr>;
          result = \<lparr>n_timestamp = toISOString pf (clock pf (m_ticks m1)),
                    interfaces = stats, connections = activeConnections\<rparr>
      in (result,
          m1\<lparr>cachedData := Some (result, clock pf (Suc (m_ticks m1))),
             m_ticks := Suc (Suc (m_ticks m1))\<rparr>))"

section \<open>Vocabulary of the properties\<close>

text \<open>The engine kinds the two switches know, after \<^verbatim>\<open>toLowerCase\<close>.\<close>

definition supported :: "db_descriptor \<Rightarrow> bool" where
  "supported d \<longleftrightarrow> toLowerCase (dbtype d) \<in> {''postgresql'', ''mysql'', ''mongodb''}"

text \<open>A command line contains the tool, the container name and the database name verbatim.\<close>

definition mentions :: "string \<Rightarrow> db_descriptor \<Rightarrow> string \<Rightarrow> bool" where
  "mentions tool d cmd \<longleftrightarrow>
     sublist tool cmd \<and> sublist (container d) cmd \<and> sublist (dbname d) cmd"

text \<open>The application an entry of createAllBackups is about, and the entry of an outcome.\<close>

fun entry_application :: "entry \<Rightarrow> string" where
  "entry_application (Succeeded r) = r_application r"
| "entry_application (Failed a m) = a"

fun entryOf :: "string \<Rightarrow> error + backup_result \<Rightarrow> entry" where
  "entryOf a (Inr r) = Succeeded r"
| "entryOf a (Inl e) = Failed a (message e)"

text \<open>
  The cadence expression an application declares, whether the validation accepts it,
  and the job scheduled for it.
\<close>

definition cadence :: "application \<Rightarrow> string option" where
  "cadence a = (case database a of None \<Rightarrow> None | Some d \<Rightarrow> backupSchedule d)"

definition validCadence :: "platform \<Rightarrow> application \<Rightarrow> bool" where
  "validCadence pf a = (case cadence a of None \<Rightarrow> False | Some s \<Rightarrow> cronValidate pf s)"

definition backupJob :: "application \<Rightarrow> job" where
  "backupJob a = \<lparr>j_application = name a, j_type = ''backup'', j_schedule = the (cadence a)\<rparr>"

section \<open>A small installation\<close>

text \<open>
  Three applications: one that is only monitored, one with a PostgreSQL database, one
  whose engine kind is not supported and whose cadence expression is not a cron
  expression. The clock starts a hundred days after the epoch; local time is UTC.
\<close>

definition pgDb :: db_descriptor where
  "pgDb = \<lparr>dbtype = ''PostgreSQL'', container = ''pg-main'', dbname = ''blog_db'',
           username = ''postgres'', password = ''secret'',
           backupSchedule = Some ''0 2 * * *'', retentionDays = Some 7\<rparr>"

definition oracleDb :: db_descriptor where
  "oracleDb = \<lparr>dbtype = ''oracle'', container = ''ora-1'', dbname = ''ledger'',
               username = ''system'', password = ''secret'',
               backupSchedule = Some ''nightly'', retentionDays = None\<rparr>"

definition appShop :: application where
  "appShop = \<lparr>name = ''shop'', containers = [''web''], database = None\<rparr>"

definition appBlog :: application where
  "appBlog = \<lparr>name = ''blog'', containers = [''web-api''], database = Some pgDb\<rparr>"

definition appLegacy :: application where
  "appLegacy = \<lparr>name = ''legacy'', containers = [''ledger-ui''], database = Some oracleDb\<rparr>"

definition demoConfig :: config where
  "demoConfig = \<lparr>applications = [appShop, appBlog, appLegacy], backup_dir = ''backups'',
                 backup_defaultSchedule = ''0 2 * * *'', backup_defaultRetentionDays = 7\<rparr>"

definition demoArtifact :: string where
  "demoArtifact = ''backup-2026-01-01T02-00-00-000Z.sql.gz''"

text \<open>A process that leaves an artifact of the given size in the blog's directory.\<close>

definition writesArtifact :: "nat \<Rightarrow> string \<Rightarrow> node \<Rightarrow> node \<times> (string + string \<times> string)" where
  "writesArtifact sz cmd fs =
     (case fs of
        Dir s b es \<Rightarrow>
          (case map_of es ''blog'' of
             Some (Dir s' b' fl) \<Rightarrow>
               (Dir s b (AList.update ''blog''
                  (Dir s' b' (AList.update demoArtifact (File sz 8640000000) fl)) es),
                Inr ([], []))
           | _ \<Rightarrow> (fs, Inl ''no such directory''))
      | File s b \<Rightarrow> (fs, Inl ''no such directory''))"

definition demoPlatform :: platform where
  "demoPlatform = \<lparr>clock = (\<lambda>k. 8640000000 + int k),
                   toISOString = (\<lambda>t. ''2026-01-01T02:00:00.000Z''),
                   execAsync = writesArtifact 2048,
                   dirSize = 4096,
                   cronValidate = (\<lambda>s. s = ''0 2 * * *''),
                   localTZA = (\<lambda>t isUTC. 0)\<rparr>"

definition emptyPlatform :: platform where
  "emptyPlatform = demoPlatform\<lparr>execAsync := writesArtifact 0\<rparr>"

definition demoWorld :: world where
  "demoWorld = \<lparr>files = Dir 4096 0 [], execLog = [], ticks = 0\<rparr>"

text \<open>Artifacts of the blog that are one, eight and thirty days old at the first clock reading.\<close>

definition agedArtifacts :: "(string \<times> node) list" where
  "agedArtifacts =
     [(''d1.sql.gz'', File 10 8553600000),
      (''d8.sql.gz'', File 10 7948800000),
      (''d30.sql.gz'', File 10 6048000000)]"

definition agedWorld :: world where
  "agedWorld = \<lparr>files = Dir 4096 0 [(''blog'', Dir 4096 0 agedArtifacts),
                                       (''shop'', Dir 4096 0 [(''old.sql.gz'', File 10 0)])],
                execLog = [], ticks = 0\<rparr>"

text \<open>A roster whose only database descriptor omits the cadence expression.\<close>

definition appPlain :: application where
  "appPlain = \<lparr>name = ''plain'', containers = [],
                database = Some (pgDb\<lparr>backupSchedule := None\<rparr>)\<rparr>"

definition plainConfig :: config where
  "plainConfig = demoConfig\<lparr>applications := [appPlain]\<rparr>"

definition legacyConfig :: config where
  "legacyConfig = demoConfig\<lparr>applications := [appLegacy]\<rparr>"

text \<open>
  New York around the clock change of 8 March 2026 (07:00 UTC): five hours behind UTC
  before it, four hours after it. The clock reads 10 March 2026, 12:00 UTC, that is
  08:00 local time; the only artifact was created at 1772540000000, between seven
  calendar days and seven times 24 hours before that.
\<close>

definition nyPlatform :: platform where
  "nyPlatform =
     demoPlatform\<lparr>clock := (\<lambda>k. 1773144000000),
                  localTZA := (\<lambda>t isUTC.
                     if isUTC then (if t < 1772953200000 then - 18000000 else - 14400000)
                     else (if t < 1772938800000 then - 18000000 else - 14400000))\<rparr>"

definition nyWorld :: world where
  "nyWorld = \<lparr>files = Dir 4096 0 [(''blog'', Dir 4096 0 [(''a.sql.gz'', File 10 1772540000000)])],
              execLog = [], ticks = 0\<rparr>"

text \<open>
  An interface polled with counters of 5000 bytes and then more, by a clock that
  advances by a fixed number of milliseconds from one reading to the next.
\<close>

definition eth0 :: "int \<Rightarrow> iface_stats" where
  "eth0 n = \<lparr>iface = ''eth0'', rx_bytes = n, tx_bytes = n\<rparr>"

definition clockEvery :: "int \<Rightarrow> platform" where
  "clockEvery ms = demoPlatform\<lparr>clock := (\<lambda>k. ms * int k)\<rparr>"

definition freshMonitor :: monitor where
  "freshMonitor = \<lparr>previousStats = Map.empty, prototype = None, cachedData = None,
                   m_ticks = 0\<rparr>"

definition seenMonitor :: monitor where
  "seenMonitor = \<lparr>previousStats = [''eth0'' \<mapsto> \<lparr>p_rx_bytes = 5000, p_tx_bytes = 5000,
                                                p_timestamp = 0\<rparr>],
                  prototype = None, cachedData = None, m_ticks = 1\<rparr>"

definition sampleStats :: stats where
  "sampleStats = \<lparr>cpu_total_usage = Num 200, precpu_total_usage = Num 100,
                  cpu_system_cpu_usage = Num 1200, precpu_system_cpu_usage = Num 1000,
                  online_cpus = Num 4, memory_usage = Num 50, memory_limit = Num 200\<rparr>"

section \<open>Auxiliary facts\<close>

lemma find_by_name:
  "distinct (map name apps) \<Longrightarrow> app \<in> set apps \<Longrightarrow> find (\<lambda>a. name a = name app) apps = Some app"
  by (induction apps) (auto simp: rev_image_eqI)

lemma scan_find:
  "scanApplications apps cn = map_option name (find (spec_matches cn) apps)"
  by (induction apps) (auto simp: spec_matches_def str_includes_def list_ex_iff split: option.splits)

lemma cleanName_leading: "cleanName (CHR ''/'' # n) = n"
  by (simp add: cleanName_def)

lemma distinct_map_insort_key:
  "distinct (map g (insort_key f x xs)) \<longleftrightarrow> g x \<notin> g ` set xs \<and> distinct (map g xs)"
  by (induction xs) (auto simp: set_insort_key)

lemma distinct_map_sort_key:
  "distinct (map g (sort_key f xs)) \<longleftrightarrow> distinct (map g xs)"
  by (induction xs) (auto simp: distinct_map_insort_key)

lemma length_filter_sort_key:
  "length (filter P (sort_key f xs)) = length (filter P xs)"
  by (simp add: filter_sort)

lemma unlink_in_app_dir:
  assumes "map_of es app = Some (Dir s' b' cur)"
    and "map_of cur fn = Some (File sz bt)"
  shows "unlink [app, fn] (Dir s b es)
           = Some (Dir s b (AList.update app (Dir s' b' (AList.delete fn cur)) es))"
  using assms by simp

lemma cleanupLoop_app_dir:
  assumes "map_of es app = Some (Dir s' b' cur)"
    and "distinct (map b_filename bs)"
    and "\<forall>x \<in> set bs. b_path x = [app, b_filename x]
            \<and> (\<exists>sz. map_of cur (b_filename x) = Some (File sz (b_created x)))"
  shows "cleanupLoop c bs (Dir s b es) k =
           (Inr (k + length (filter (\<lambda>x. createdBefore (b_created x) c) bs)),
            Dir s b (AList.update app
              (Dir s' b' (filter (\<lambda>e. fst e \<notin> b_filename ` {x \<in> set bs. createdBefore (b_created x) c}) cur)) es))"
  using assms
proof (induction bs arbitrary: es cur k)
  case Nil
  then show ?case by (simp add: AList.update_triv)
next
  case (Cons x bs)
  show ?case
  proof (cases "createdBefore (b_created x) c")
    case False
    have "cleanupLoop c bs (Dir s b es) k =
           (Inr (k + length (filter (\<lambda>x. createdBefore (b_created x) c) bs)),
            Dir s b (AList.update app
              (Dir s' b' (filter (\<lambda>e. fst e \<notin> b_filename ` {x \<in> set bs. createdBefore (b_created x) c}) cur)) es))"
      using Cons.prems by (intro Cons.IH) auto
    moreover have "{y \<in> set (x # bs). createdBefore (b_created y) c} = {y \<in> set bs. createdBefore (b_created y) c}"
      using False by auto
    ultimately show ?thesis using False by simp
  next
    case True
    obtain sz where sz: "map_of cur (b_filename x) = Some (File sz (b_created x))"
      using Cons.prems(3) by auto
    have px: "b_path x = [app, b_filename x]" using Cons.prems(3) by simp
    let ?cur' = "AList.delete (b_filename x) cur"
    let ?es' = "AList.update app (Dir s' b' ?cur') es"
    have ul: "unlink (b_path x) (Dir s b es) = Some (Dir s b ?es')"
      using px unlink_in_app_dir[OF Cons.prems(1) sz] by simp
    have m': "map_of ?es' app = Some (Dir s' b' ?cur')"
      by (simp add: AList.update_conv')
    have others: "\<forall>y \<in> set bs. b_path y = [app, b_filename y]
            \<and> (\<exists>sz. map_of ?cur' (b_filename y) = Some (File sz (b_created y)))"
    proof
      fix y assume y: "y \<in> set bs"
      have "b_filename x \<notin> b_filename ` set bs" using Cons.prems(2) by simp
      moreover have "b_filename y \<in> b_filename ` set bs" using y by (rule imageI)
      ultimately have ne: "b_filename y \<noteq> b_filename x" by metis
      from y Cons.prems(3) show "b_path y = [app, b_filename y]
            \<and> (\<exists>sz. map_of ?cur' (b_filename y) = Some (File sz (b_created y)))"
        using ne by (simp add: AList.delete_conv')
    qed
    have d: "distinct (map b_filename bs)" using Cons.prems(2) by simp
    have ih: "cleanupLoop c bs (Dir s b ?es') (k + 1) =
           (Inr (k + 1 + length (filter (\<lambda>x. createdBefore (b_created x) c) bs)),
            Dir s b (AList.update app
              (Dir s' b' (filter (\<lambda>e. fst e \<notin> b_filename ` {x \<in> set bs. createdBefore (b_created x) c}) ?cur')) ?es'))"
      by (rule Cons.IH[OF m' d others])
    have f: "filter (\<lambda>e. fst e \<notin> b_filename ` {y \<in> set bs. createdBefore (b_created y) c}) ?cur'
           = filter (\<lambda>e. fst e \<notin> b_filename ` {y \<in> set (x # bs). createdBefore (b_created y) c}) cur"
      using True by (auto simp: AList.delete_eq intro!: filter_cong)
    show ?thesis using True ul ih f by simp
  qed
qed

lemma listBackups_app_dir:
  assumes "appName \<noteq> []" and "files w = Dir s b es"
    and "map_of es appName = Some (Dir s' b' fl)"
  shows "listBackups (Some appName) w = sortBackups (map (backupOf appName [appName]) fl)"
  using assms by (simp add: listBackups_def path_join_def)

lemma file_entry:
  "\<not> isDirectory nd \<Longrightarrow> \<exists>sz. nd = File sz (birthtime nd)"
  by (cases nd) auto

lemma cleanup_result:
  assumes "appName \<noteq> []"
    and "files w = Dir s b es"
    and "map_of es appName = Some (Dir s' b' fl)"
    and "distinct (map fst fl)"
    and "\<forall>e \<in> set fl. fst e \<noteq> [] \<and> \<not> isDirectory (snd e)"
  shows "cleanupOldBackups pf appName days w =
           (Inr (length (filter (\<lambda>e. createdBefore (birthtime (snd e)) (cutoffDate pf (clock pf (ticks w)) days)) fl)),
            w\<lparr>ticks := Suc (ticks w),
              files := Dir s b (AList.update appName
                (Dir s' b' (filter (\<lambda>e. \<not> createdBefore (birthtime (snd e)) (cutoffDate pf (clock pf (ticks w)) days)) fl))
                es)\<rparr>)"
proof -
  let ?c = "cutoffDate pf (clock pf (ticks w)) days"
  let ?mk = "backupOf appName [appName]"
  let ?bs = "sortBackups (map ?mk fl)"
  have fn: "map b_filename (map ?mk fl) = map fst fl"
    by (simp add: backupOf_def comp_def)
  have "distinct (map b_filename (map ?mk fl))"
    using assms(4) by (simp only: fn)
  then have d: "distinct (map b_filename ?bs)"
    unfolding sortBackups_def by (simp only: distinct_map_sort_key)
  have mem: "\<forall>x \<in> set ?bs. b_path x = [appName, b_filename x]
            \<and> (\<exists>sz. map_of fl (b_filename x) = Some (File sz (b_created x)))"
  proof
    fix x assume "x \<in> set ?bs"
    then obtain e where e: "e \<in> set fl" and x: "x = ?mk e"
      by (auto simp: sortBackups_def)
    from e assms(5) have ne: "fst e \<noteq> []" and nd: "\<not> isDirectory (snd e)" by auto
    from file_entry[OF nd] obtain sz where sz: "snd e = File sz (birthtime (snd e))" ..
    have "map_of fl (fst e) = Some (snd e)"
      using assms(4) e by (cases e) simp
    then show "b_path x = [appName, b_filename x]
            \<and> (\<exists>sz. map_of fl (b_filename x) = Some (File sz (b_created x)))"
      using x ne sz by (auto simp: backupOf_def path_join_def)
  qed
  have loop: "cleanupLoop ?c ?bs (Dir s b es) 0 =
           (Inr (0 + length (filter (\<lambda>x. createdBefore (b_created x) ?c) ?bs)),
            Dir s b (AList.update appName
              (Dir s' b' (filter (\<lambda>e. fst e \<notin> b_filename ` {x \<in> set ?bs. createdBefore (b_created x) ?c}) fl)) es))"
    by (rule cleanupLoop_app_dir[OF assms(3) d mem])
  have cnt: "length (filter (\<lambda>x. createdBefore (b_created x) ?c) ?bs)
               = length (filter (\<lambda>e. createdBefore (birthtime (snd e)) ?c) fl)"
  proof -
    have "length (filter (\<lambda>x. createdBefore (b_created x) ?c) ?bs)
            = length (filter (\<lambda>x. createdBefore (b_created x) ?c) (map ?mk fl))"
      unfolding sortBackups_def by (rule length_filter_sort_key)
    also have "\<dots> = length (filter (\<lambda>e. createdBefore (birthtime (snd e)) ?c) fl)"
      by (simp add: filter_map comp_def backupOf_def)
    finally show ?thesis .
  qed
  have keep: "filter (\<lambda>e. fst e \<notin> b_filename ` {x \<in> set ?bs. createdBefore (b_created x) ?c}) fl
                = filter (\<lambda>e. \<not> createdBefore (birthtime (snd e)) ?c) fl"
  proof (rule filter_cong[OF refl])
    fix e assume e: "e \<in> set fl"
    have "fst e \<in> b_filename ` {x \<in> set ?bs. createdBefore (b_created x) ?c} \<longleftrightarrow> createdBefore (birthtime (snd e)) ?c"
    proof
      assume "fst e \<in> b_filename ` {x \<in> set ?bs. createdBefore (b_created x) ?c}"
      then obtain e' where e': "e' \<in> set fl" and k: "fst e' = fst e"
        and old: "createdBefore (birthtime (snd e')) ?c"
        by (auto simp: sortBackups_def backupOf_def)
      have "e' = e"
        using assms(4) e e' k by (metis eq_key_imp_eq_value prod.collapse)
      then show "createdBefore (birthtime (snd e)) ?c" using old by simp
    next
      assume "createdBefore (birthtime (snd e)) ?c"
      then have "?mk e \<in> {x \<in> set ?bs. createdBefore (b_created x) ?c}"
        using e by (simp add: sortBackups_def backupOf_def)
      then have "b_filename (?mk e) \<in> b_filename ` {x \<in> set ?bs. createdBefore (b_created x) ?c}"
        by (rule imageI)
      then show "fst e \<in> b_filename ` {x \<in> set ?bs. createdBefore (b_created x) ?c}"
        by (simp add: backupOf_def)
    qed
    then show "(fst e \<notin> b_filename ` {x \<in> set ?bs. createdBefore (b_created x) ?c})
                 = (\<not> createdBefore (birthtime (snd e)) ?c)" by simp
  qed
  show ?thesis
    using listBackups_app_dir[OF assms(1,2,3)] loop cnt keep assms(2)
    by (simp add: cleanupOldBackups_def now_def Let_def)
qed

lemma createdBefore_cutoff:
  "createdBefore c (cutoffDate pf t days) \<longleftrightarrow>
     \<bar>t + localTZA pf t True - days * 86400000
        - localTZA pf (t + localTZA pf t True - days * 86400000) False\<bar> \<le> 8640000000000000
     \<and> c < t + localTZA pf t True - days * 86400000
            - localTZA pf (t + localTZA pf t True - days * 86400000) False"
  by (simp add: createdBefore_def cutoffDate_def Let_def)

lemma cleanupLoop_error:
  "fst (cleanupLoop c bs fs k) = Inl e \<Longrightarrow> e = FilesystemFailure ''unlink failed''"
  by (induction bs arbitrary: fs k) (auto split: if_splits option.splits)

lemma cleanupOldBackups_error:
  assumes "fst (cleanupOldBackups pf appName days w) = Inl e"
  shows "e \<noteq> EmptyArtifact"
proof -
  let ?loop = "cleanupLoop (cutoffDate pf (clock pf (ticks w)) days)
                 (listBackups (Some appName) w) (files w) 0"
  have "fst (cleanupOldBackups pf appName days w) = fst ?loop"
    by (simp add: cleanupOldBackups_def now_def Let_def split: prod.splits)
  then have "fst ?loop = Inl e" using assms by simp
  then have "e = FilesystemFailure ''unlink failed''" by (rule cleanupLoop_error)
  then show ?thesis by simp
qed

lemma sublistI: "ys = ps @ x @ ss \<Longrightarrow> sublist x ys"
  by (auto simp: sublist_def)

lemma pg_backup_mentions:
  "mentions ''pg_dump'' d (getPostgreSQLBackupCommand d f)"
  "sublist (username d) (getPostgreSQLBackupCommand d f)"
proof -
  let ?c = "getPostgreSQLBackupCommand d f"
  have "sublist ''pg_dump'' ?c"
    by (rule sublistI[where ps = "''docker exec '' @ container d @ '' ''"
          and ss = "'' -U '' @ username d @ '' '' @ dbname d @ '' | gzip > '' @ f"])
       (simp add: getPostgreSQLBackupCommand_def)
  moreover have "sublist (container d) ?c"
    by (rule sublistI[where ps = "''docker exec ''"
          and ss = "'' pg_dump -U '' @ username d @ '' '' @ dbname d @ '' | gzip > '' @ f"])
       (simp add: getPostgreSQLBackupCommand_def)
  moreover have "sublist (dbname d) ?c"
    by (rule sublistI[where ps = "''docker exec '' @ container d @ '' pg_dump -U '' @ username d @ '' ''"
          and ss = "'' | gzip > '' @ f"])
       (simp add: getPostgreSQLBackupCommand_def)
  ultimately show "mentions ''pg_dump'' d ?c" by (simp add: mentions_def)
  show "sublist (username d) ?c"
    by (rule sublistI[where ps = "''docker exec '' @ container d @ '' pg_dump -U ''"
          and ss = "'' '' @ dbname d @ '' | gzip > '' @ f"])
       (simp add: getPostgreSQLBackupCommand_def)
qed

lemma mysql_backup_mentions:
  "mentions ''mysqldump'' d (getMySQLBackupCommand d f)"
proof -
  let ?c = "getMySQLBackupCommand d f"
  have "sublist ''mysqldump'' ?c"
    by (rule sublistI[where ps = "''docker exec '' @ container d @ '' ''"
          and ss = "'' -u '' @ username d @ '' -p'' @ password d @ '' '' @ dbname d @ '' | gzip > '' @ f"])
       (simp add: getMySQLBackupCommand_def)
  moreover have "sublist (container d) ?c"
    by (rule sublistI[where ps = "''docker exec ''"
          and ss = "'' mysqldump -u '' @ username d @ '' -p'' @ password d @ '' '' @ dbname d @ '' | gzip > '' @ f"])
       (simp add: getMySQLBackupCommand_def)
  moreover have "sublist (dbname d) ?c"
    by (rule sublistI[where ps = "''docker exec '' @ container d @ '' mysqldump -u '' @ username d @ '' -p'' @ password d @ '' ''"
          and ss = "'' | gzip > '' @ f"])
       (simp add: getMySQLBackupCommand_def)
  ultimately show ?thesis by (simp add: mentions_def)
qed

lemma mongo_backup_mentions:
  "mentions ''mongodump'' d (getMongoDBBackupCommand d f)"
proof -
  let ?c = "getMongoDBBackupCommand d f"
  have "sublist ''mongodump'' ?c"
    by (rule sublistI[where ps = "''docker exec '' @ container d @ '' ''"
          and ss = "'' --db '' @ dbname d @ '' --archive | gzip > '' @ f"])
       (simp add: getMongoDBBackupCommand_def)
  moreover have "sublist (container d) ?c"
    by (rule sublistI[where ps = "''docker exec ''"
          and ss = "'' mongodump --db '' @ dbname d @ '' --archive | gzip > '' @ f"])
       (simp add: getMongoDBBackupCommand_def)
  moreover have "sublist (dbname d) ?c"
    by (rule sublistI[where ps = "''docker exec '' @ container d @ '' mongodump --db ''"
          and ss = "'' --archive | gzip > '' @ f"])
       (simp add: getMongoDBBackupCommand_def)
  ultimately show ?thesis by (simp add: mentions_def)
qed

lemma restore_pg:
  assumes "toLowerCase (dbtype d) = ''postgresql''"
  shows "\<exists>cmd. restoreSwitch d bp = Inr cmd \<and> mentions ''psql'' d cmd \<and> sublist (username d) cmd
           \<and> restoreSwitch (d\<lparr>password := p\<rparr>) bp = Inr cmd"
proof -
  let ?c = "''gunzip < '' @ bp @ '' | docker exec -i '' @ container d @ '' psql -U ''
               @ username d @ '' '' @ dbname d"
  have r: "restoreSwitch d bp = Inr ?c" "restoreSwitch (d\<lparr>password := p\<rparr>) bp = Inr ?c"
    using assms by (simp_all add: restoreSwitch_def)
  have "sublist ''psql'' ?c"
    by (rule sublistI[where ps = "''gunzip < '' @ bp @ '' | docker exec -i '' @ container d @ '' ''"
          and ss = "'' -U '' @ username d @ '' '' @ dbname d"]) simp
  moreover have "sublist (container d) ?c"
    by (rule sublistI[where ps = "''gunzip < '' @ bp @ '' | docker exec -i ''"
          and ss = "'' psql -U '' @ username d @ '' '' @ dbname d"]) simp
  moreover have "sublist (dbname d) ?c"
    by (rule sublistI[where ps = "''gunzip < '' @ bp @ '' | docker exec -i '' @ container d @ '' psql -U '' @ username d @ '' ''"
          and ss = "[]"]) simp
  moreover have "sublist (username d) ?c"
    by (rule sublistI[where ps = "''gunzip < '' @ bp @ '' | docker exec -i '' @ container d @ '' psql -U ''"
          and ss = "'' '' @ dbname d"]) simp
  ultimately show ?thesis using r by (simp add: mentions_def)
qed

lemma restore_mysql:
  assumes "toLowerCase (dbtype d) = ''mysql''"
  shows "\<exists>cmd. restoreSwitch d bp = Inr cmd \<and> mentions ''mysql'' d cmd"
proof -
  let ?c = "''gunzip < '' @ bp @ '' | docker exec -i '' @ container d @ '' mysql -u ''
               @ username d @ '' -p'' @ password d @ '' '' @ dbname d"
  have r: "restoreSwitch d bp = Inr ?c"
    using assms by (simp add: restoreSwitch_def)
  have "sublist ''mysql'' ?c"
    by (rule sublistI[where ps = "''gunzip < '' @ bp @ '' | docker exec -i '' @ container d @ '' ''"
          and ss = "'' -u '' @ username d @ '' -p'' @ password d @ '' '' @ dbname d"]) simp
  moreover have "sublist (container d) ?c"
    by (rule sublistI[where ps = "''gunzip < '' @ bp @ '' | docker exec -i ''"
          and ss = "'' mysql -u '' @ username d @ '' -p'' @ password d @ '' '' @ dbname d"]) simp
  moreover have "sublist (dbname d) ?c"
    by (rule sublistI[where ps = "''gunzip < '' @ bp @ '' | docker exec -i '' @ container d @ '' mysql -u '' @ username d @ '' -p'' @ password d @ '' ''"
          and ss = "[]"]) simp
  ultimately show ?thesis using r by (simp add: mentions_def)
qed

lemma restore_mongo:
  assumes "toLowerCase (dbtype d) = ''mongodb''"
  shows "\<exists>cmd. restoreSwitch d bp = Inr cmd \<and> mentions ''mongorestore'' d cmd"
proof -
  let ?c = "''gunzip < '' @ bp @ '' | docker exec -i '' @ container d
               @ '' mongorestore --archive --db '' @ dbname d"
  have r: "restoreSwitch d bp = Inr ?c"
    using assms by (simp add: restoreSwitch_def)
  have "sublist ''mongorestore'' ?c"
    by (rule sublistI[where ps = "''gunzip < '' @ bp @ '' | docker exec -i '' @ container d @ '' ''"
          and ss = "'' --archive --db '' @ dbname d"]) simp
  moreover have "sublist (container d) ?c"
    by (rule sublistI[where ps = "''gunzip < '' @ bp @ '' | docker exec -i ''"
          and ss = "'' mongorestore --archive --db '' @ dbname d"]) simp
  moreover have "sublist (dbname d) ?c"
    by (rule sublistI[where ps = "''gunzip < '' @ bp @ '' | docker exec -i '' @ container d @ '' mongorestore --archive --db ''"
          and ss = "[]"]) simp
  ultimately show ?thesis using r by (simp add: mentions_def)
qed

lemma backup_pg:
  assumes "toLowerCase (dbtype d) = ''postgresql''"
  shows "\<exists>f cmd. backupSwitch d ts render = Inr (f, cmd) \<and> mentions ''pg_dump'' d cmd
           \<and> sublist (username d) cmd \<and> backupSwitch (d\<lparr>password := p\<rparr>) ts render = Inr (f, cmd)"
  using assms pg_backup_mentions[of d]
  by (simp add: backupSwitch_def Let_def getPostgreSQLBackupCommand_def)

lemma backup_mysql:
  assumes "toLowerCase (dbtype d) = ''mysql''"
  shows "\<exists>f cmd. backupSwitch d ts render = Inr (f, cmd) \<and> mentions ''mysqldump'' d cmd"
  using assms mysql_backup_mentions[of d]
  by (simp add: backupSwitch_def Let_def)

lemma backup_mongo:
  assumes "toLowerCase (dbtype d) = ''mongodb''"
  shows "\<exists>f cmd. backupSwitch d ts render = Inr (f, cmd) \<and> mentions ''mongodump'' d cmd"
  using assms mongo_backup_mentions[of d]
  by (simp add: backupSwitch_def Let_def)

lemma unsupported_switch:
  assumes "\<not> supported d"
  shows "backupSwitch d ts render = Inl (UnsupportedEngineKind (dbtype d))"
    and "restoreSwitch d bp = Inl (UnsupportedEngineKind (dbtype d))"
  using assms by (simp_all add: supported_def backupSwitch_def restoreSwitch_def Let_def)

lemma unsupported_createBackup:
  assumes "find (\<lambda>a. name a = appName) (applications cfg) = Some app"
    and "database app = Some d" and "\<not> supported d"
  shows "execLog (snd (createBackup cfg pf appName w)) = execLog w"
    and "\<exists>e. fst (createBackup cfg pf appName w) = Inl e"
    and "mkdir_p (dirSize pf) (clock pf (ticks w)) (path_join [] appName) (files w) \<noteq> None
          \<Longrightarrow> fst (createBackup cfg pf appName w) = Inl (UnsupportedEngineKind (dbtype d))"
  using assms unsupported_switch(1)[OF assms(3)]
  by (auto simp: createBackup_def now_def Let_def split: option.splits)

lemma unsupported_restoreBackup:
  assumes "find (\<lambda>a. name a = appName) (applications cfg) = Some app"
    and "database app = Some d" and "\<not> supported d"
  shows "snd (restoreBackup cfg pf appName fn w) = w"
    and "\<exists>e. fst (restoreBackup cfg pf appName fn w) = Inl e"
    and "lookup (files w) (path_join (path_join [] appName) fn) \<noteq> None
          \<Longrightarrow> fst (restoreBackup cfg pf appName fn w) = Inl (UnsupportedEngineKind (dbtype d))"
  using assms unsupported_switch(2)[OF assms(3)]
  by (auto simp: restoreBackup_def Let_def split: option.splits)

lemma executeBackup_application:
  "executeBackup cfg pf appName d bf cmd w = (Inr r, w') \<Longrightarrow> r_application r = appName"
  by (auto simp: executeBackup_def Let_def split: prod.splits sum.splits option.splits if_splits)

lemma createBackup_application:
  "createBackup cfg pf appName w = (Inr r, w') \<Longrightarrow> r_application r = appName"
  by (auto simp: createBackup_def Let_def split: prod.splits sum.splits option.splits
           dest: executeBackup_application)

lemma createAllLoop_step:
  assumes "database app = Some d"
  shows "createAllLoop cfg pf (app # rest) w rs =
           createAllLoop cfg pf rest (snd (createBackup cfg pf (name app) w))
             (rs @ [entryOf (name app) (fst (createBackup cfg pf (name app) w))])"
proof (cases "createBackup cfg pf (name app) w")
  case (Pair r w')
  then show ?thesis using assms by (cases r) simp_all
qed

lemma entryOf_application:
  "entry_application (entryOf (name app) (fst (createBackup cfg pf (name app) w))) = name app"
proof (cases "createBackup cfg pf (name app) w")
  case (Pair r w')
  then show ?thesis
    by (cases r) (simp_all add: createBackup_application)
qed

lemma createAllLoop_applications:
  "map entry_application (fst (createAllLoop cfg pf apps w rs))
     = map entry_application rs @ map name (filter (\<lambda>a. database a \<noteq> None) apps)"
proof (induction apps arbitrary: w rs)
  case Nil
  then show ?case by simp
next
  case (Cons app rest)
  show ?case
  proof (cases "database app")
    case None
    then show ?thesis using Cons.IH by simp
  next
    case (Some d)
    show ?thesis
      unfolding createAllLoop_step[OF Some] Cons.IH
      using Some by (simp add: entryOf_application)
  qed
qed

lemma initLoop_jobs:
  assumes "\<forall>a \<in> set apps. \<forall>d. database a = Some d \<longrightarrow> (\<exists>s. backupSchedule d = Some s \<and> s \<noteq> [])"
  shows "initLoop cfg pf apps js = Inr (js @ map backupJob (filter (validCadence pf) apps))"
  using assms
proof (induction apps arbitrary: js)
  case Nil
  then show ?case by simp
next
  case (Cons a rest)
  have ih: "\<And>js. initLoop cfg pf rest js = Inr (js @ map backupJob (filter (validCadence pf) rest))"
    using Cons.prems by (intro Cons.IH) simp
  show ?case
  proof (cases "database a")
    case None
    then have "\<not> validCadence pf a" by (simp add: validCadence_def cadence_def)
    then show ?thesis using None ih by simp
  next
    case (Some d)
    then obtain s where s: "backupSchedule d = Some s" "s \<noteq> []"
      using Cons.prems by auto
    have v: "validCadence pf a = cronValidate pf s"
      using Some s by (simp add: validCadence_def cadence_def)
    have j: "backupJob a = \<lparr>j_application = name a, j_type = ''backup'', j_schedule = s\<rparr>"
      using Some s by (simp add: backupJob_def cadence_def)
    show ?thesis
      using Some s ih v j by (simp add: scheduleBackup_def)
  qed
qed

lemma floor_half: "\<lfloor>(1::rat) / 2\<rfloor> = 0"
  by (rule floor_unique) simp_all

subsection \<open>Double-precision arithmetic\<close>

text \<open>
  The exponent and the rounding of \<open>dbl\<close> are characterised by bounds, so that a
  value is computed from its exponent and its significand; an integer of at most 53
  bits is its own double; a double in the normal range is within the relative error
  2 to the power -53 of the number it rounds.
\<close>

lemma int_pow2_bounds:
  fixes p :: int
  assumes "0 < p"
  shows "(2::rat) powi (bitlen p - 1) \<le> of_int p" and "of_int p < (2::rat) powi (bitlen p)"
proof -
  from bitlen_bounds[OF assms] have lo: "2 ^ nat (bitlen p - 1) \<le> p" and hi: "p < 2 ^ nat (bitlen p)"
    by simp_all
  have b1: "1 \<le> bitlen p" using assms by (auto simp: bitlen_alt_def)
  have "(2::rat) powi (bitlen p - 1) = 2 ^ nat (bitlen p - 1)"
    using b1 by (simp add: power_int_def)
  also have "\<dots> = of_int (2 ^ nat (bitlen p - 1))" by simp
  also have "\<dots> \<le> of_int p" using lo by (simp only: of_int_le_iff)
  finally show "(2::rat) powi (bitlen p - 1) \<le> of_int p" .
  have "(of_int p :: rat) < of_int (2 ^ nat (bitlen p))" using hi by (simp only: of_int_less_iff)
  also have "\<dots> = 2 ^ nat (bitlen p)" by simp
  also have "\<dots> = (2::rat) powi (bitlen p)" using b1 by (simp add: power_int_def)
  finally show "of_int p < (2::rat) powi (bitlen p)" .
qed

lemma ilog2_bounds:
  assumes "0 < a"
  shows "2 powi (ilog2 a) \<le> a" and "a < 2 powi (ilog2 a + 1)"
proof -
  obtain p q where pq: "quotient_of a = (p, q)" by (cases "quotient_of a")
  have q: "0 < q" using pq by (rule quotient_of_denom_pos)
  have a: "a = of_int p / of_int q" using pq by (rule quotient_of_div)
  have p: "0 < p"
  proof (rule ccontr)
    assume "\<not> 0 < p"
    then have "of_int p / of_int q \<le> (0::rat)" using q by (simp add: divide_le_0_iff)
    then show False using assms a by simp
  qed
  let ?k = "bitlen p - bitlen q"
  note P = int_pow2_bounds[OF p] and Q = int_pow2_bounds[OF q]
  have qpos: "(0::rat) < of_int q" using q by simp
  have up: "a < 2 powi (?k + 1)"
  proof -
    have "a * of_int q = of_int p" using a qpos by simp
    also have "\<dots> < 2 powi (bitlen p)" by (rule P(2))
    also have "\<dots> = 2 powi (?k + 1) * 2 powi (bitlen q - 1)"
      by (simp flip: power_int_add)
    also have "\<dots> \<le> 2 powi (?k + 1) * of_int q"
      using Q(1) by (intro mult_left_mono) simp_all
    finally show ?thesis using qpos by simp
  qed
  have lo: "2 powi (?k - 1) \<le> a"
  proof -
    have "(2::rat) powi (?k - 1) * of_int q \<le> 2 powi (?k - 1) * 2 powi (bitlen q)"
      using Q(2) by (intro mult_left_mono) simp_all
    also have "\<dots> = 2 powi (bitlen p - 1)" by (simp flip: power_int_add)
    also have "\<dots> \<le> of_int p" by (rule P(1))
    also have "\<dots> = a * of_int q" using a qpos by simp
    finally show ?thesis using qpos by simp
  qed
  have e: "ilog2 a = (if 2 powi ?k \<le> a then ?k else ?k - 1)"
    by (simp add: ilog2_def pq Let_def)
  show "2 powi (ilog2 a) \<le> a" using e lo by (simp split: if_splits)
  show "a < 2 powi (ilog2 a + 1)" using e up by (auto split: if_splits)
qed

lemma ilog2_unique:
  assumes "2 powi e \<le> a" and "a < 2 powi (e + 1)"
  shows "ilog2 a = e"
proof -
  have pos: "0 < a" using assms(1) by (rule less_le_trans[OF zero_less_power_int, rotated]) simp
  note B = ilog2_bounds[OF pos]
  have "(2::rat) powi e < 2 powi (ilog2 a + 1)" using assms(1) B(2) by simp
  then have 1: "e < ilog2 a + 1"
    by (metis not_le power_int_increasing one_le_numeral leD)
  have "(2::rat) powi (ilog2 a) < 2 powi (e + 1)" using assms(2) B(1) by simp
  then have 2: "ilog2 a < e + 1"
    by (metis not_le power_int_increasing one_le_numeral leD)
  from 1 2 show ?thesis by simp
qed

lemma roundHalfEven_unique:
  assumes "of_int m - 1 / 2 < y" and "y < of_int m + 1 / 2"
  shows "roundHalfEven y = m"
proof -
  have lo: "m - 1 \<le> \<lfloor>y\<rfloor>"
  proof -
    have "of_int (m - 1) \<le> y" using assms(1) by simp
    then show ?thesis by (simp only: le_floor_iff)
  qed
  have hi: "\<lfloor>y\<rfloor> \<le> m"
  proof -
    have "y < of_int (m + 1)" using assms(2) by simp
    then have "\<lfloor>y\<rfloor> < m + 1" by (simp only: floor_less_iff)
    then show ?thesis by simp
  qed
  consider "\<lfloor>y\<rfloor> = m" | "\<lfloor>y\<rfloor> = m - 1" using lo hi by linarith
  then show ?thesis
  proof cases
    case 1
    then show ?thesis using assms(2) by (simp add: roundHalfEven_def Let_def)
  next
    case 2
    then show ?thesis using assms(1) by (simp add: roundHalfEven_def Let_def)
  qed
qed

lemma roundHalfEven_of_int: "roundHalfEven (of_int n) = n"
  by (rule roundHalfEven_unique) simp_all

lemma roundHalfEven_near:
  "of_int (roundHalfEven y) \<le> y + 1 / 2" "y - 1 / 2 \<le> of_int (roundHalfEven y)"
proof -
  let ?f = "\<lfloor>y\<rfloor>"
  have f1: "of_int ?f \<le> y" and f2: "y < of_int ?f + 1"
    using floor_correct[of y] by simp_all
  consider (lt) "y - of_int ?f < 1 / 2" | (gt) "1 / 2 < y - of_int ?f" | (eq) "y - of_int ?f = 1 / 2"
    by linarith
  then have "of_int (roundHalfEven y) \<le> y + 1 / 2 \<and> y - 1 / 2 \<le> of_int (roundHalfEven y)"
  proof cases
    case lt
    then have r: "roundHalfEven y = ?f" by (simp add: roundHalfEven_def Let_def)
    show ?thesis unfolding r using f1 lt by linarith
  next
    case gt
    then have r: "roundHalfEven y = ?f + 1" by (simp add: roundHalfEven_def Let_def)
    show ?thesis unfolding r of_int_add of_int_1 using f2 gt by linarith
  next
    case eq
    then have "roundHalfEven y = ?f \<or> roundHalfEven y = ?f + 1"
      by (simp add: roundHalfEven_def Let_def)
    then show ?thesis
    proof
      assume r: "roundHalfEven y = ?f"
      show ?thesis unfolding r using eq by linarith
    next
      assume r: "roundHalfEven y = ?f + 1"
      show ?thesis unfolding r of_int_add of_int_1 using eq by linarith
    qed
  qed
  then show "of_int (roundHalfEven y) \<le> y + 1 / 2" "y - 1 / 2 \<le> of_int (roundHalfEven y)"
    by simp_all
qed

lemma dbl_form:
  assumes "2 powi e \<le> a" and "a < 2 powi (e + 1)" and "e < 1023"
    and "u = max (e - 52) (- 1074)"
    and "m = roundHalfEven (a / 2 powi u)"
  shows "dbl a = Num (of_int m * 2 powi u)" and "dbl (- a) = Num (- (of_int m * 2 powi u))"
proof -
  have pos: "0 < a" using assms(1) by (rule less_le_trans[OF zero_less_power_int, rotated]) simp
  have il: "ilog2 a = e" using assms(1,2) by (rule ilog2_unique)
  have upos: "(0::rat) < 2 powi u" by simp
  have "of_int m \<le> a / 2 powi u + 1 / 2"
    unfolding assms(5) by (rule roundHalfEven_near)
  then have "of_int m * 2 powi u \<le> (a / 2 powi u + 1 / 2) * 2 powi u"
    using upos by (intro mult_right_mono) simp_all
  also have "\<dots> = a + 2 powi u / 2" using upos by (simp add: field_simps)
  also have "\<dots> < 2 powi (e + 1) + 2 powi u" using assms(2) upos by linarith
  also have "\<dots> \<le> 2 powi 1023 + 2 powi 1023"
  proof -
    have "(2::rat) powi (e + 1) \<le> 2 powi 1023"
      using assms(3) by (intro power_int_increasing) simp_all
    moreover have "(2::rat) powi u \<le> 2 powi 1023"
      using assms(3,4) by (intro power_int_increasing) simp_all
    ultimately show ?thesis by simp
  qed
  also have "\<dots> = (2::rat) powi 1024"
  proof -
    have s: "(1024::int) = 1023 + 1" by simp
    have "(2::rat) powi 1024 = 2 powi 1023 * 2"
      by (subst s) (rule power_int_add_1, simp)
    then show ?thesis by linarith
  qed
  finally have fin: "\<not> (2::rat) powi 1024 \<le> of_int m * 2 powi u" by (simp only: not_le)
  show "dbl a = Num (of_int m * 2 powi u)"
    using pos il fin assms(4,5) by (simp add: dbl_def Let_def)
  show "dbl (- a) = Num (- (of_int m * 2 powi u))"
    using pos il fin assms(4,5) by (simp add: dbl_def Let_def)
qed

lemma dbl_eval:
  assumes "2 powi e \<le> a" and "a < 2 powi (e + 1)" and "e < 1023"
    and "u = max (e - 52) (- 1074)"
    and "of_int m - 1 / 2 < a / 2 powi u" and "a / 2 powi u < of_int m + 1 / 2"
  shows "dbl a = Num (of_int m * 2 powi u)" and "dbl (- a) = Num (- (of_int m * 2 powi u))"
proof -
  have rh: "m = roundHalfEven (a / 2 powi u)"
    using assms(5,6) by (rule roundHalfEven_unique[symmetric])
  show "dbl a = Num (of_int m * 2 powi u)"
    by (rule dbl_form(1)[OF assms(1-4) rh])
  show "dbl (- a) = Num (- (of_int m * 2 powi u))"
    by (rule dbl_form(2)[OF assms(1-4) rh])
qed

lemma dbl_near_pos:
  assumes "2 powi (- 1022) \<le> a" and "a < 2 powi 1023"
  shows "\<exists>y. dbl a = Num y \<and> dbl (- a) = Num (- y) \<and> \<bar>y - a\<bar> \<le> a / 2 ^ 53"
proof -
  have pos: "0 < a" using assms(1) by (rule less_le_trans[OF zero_less_power_int, rotated]) simp
  let ?e = "ilog2 a"
  note B = ilog2_bounds[OF pos]
  have "(2::rat) powi (- 1022) < 2 powi (?e + 1)" using assms(1) B(2) by (rule le_less_trans)
  then have lo: "- 1022 < ?e + 1"
    by (metis not_le power_int_increasing one_le_numeral leD)
  have "(2::rat) powi ?e < 2 powi 1023" using B(1) assms(2) by (rule le_less_trans)
  then have hi: "?e < 1023"
    by (metis not_le power_int_increasing one_le_numeral leD)
  let ?u = "?e - 52"
  have u: "?u = max (?e - 52) (- 1074)" using lo by simp
  let ?m = "roundHalfEven (a / 2 powi ?u)"
  let ?y = "of_int ?m * 2 powi ?u"
  note F = dbl_form[OF B(1) B(2) hi u refl]
  have upos: "(0::rat) < 2 powi ?u" by simp
  have "\<bar>of_int ?m - a / 2 powi ?u\<bar> \<le> 1 / 2"
    using roundHalfEven_near[of "a / 2 powi ?u"] by linarith
  then have "\<bar>of_int ?m - a / 2 powi ?u\<bar> * 2 powi ?u \<le> 1 / 2 * 2 powi ?u"
    using upos by (intro mult_right_mono) simp_all
  moreover have "\<bar>of_int ?m - a / 2 powi ?u\<bar> * 2 powi ?u = \<bar>?y - a\<bar>"
  proof -
    have "\<bar>of_int ?m - a / 2 powi ?u\<bar> * 2 powi ?u = \<bar>(of_int ?m - a / 2 powi ?u) * 2 powi ?u\<bar>"
      using upos by (simp add: abs_mult)
    also have "(of_int ?m - a / 2 powi ?u) * 2 powi ?u = ?y - a"
      using upos by (simp add: field_simps)
    finally show ?thesis .
  qed
  moreover have "1 / 2 * (2::rat) powi ?u = 2 powi ?e / 2 ^ 53"
  proof -
    have "(2::rat) powi ?u = 2 powi ?e / 2 powi 52" by (rule power_int_diff) simp
    then show ?thesis by simp
  qed
  moreover have "(2::rat) powi ?e / 2 ^ 53 \<le> a / 2 ^ 53"
    using B(1) by (intro divide_right_mono) simp_all
  ultimately have "\<bar>?y - a\<bar> \<le> a / 2 ^ 53" by linarith
  then show ?thesis using F by blast
qed

lemma dbl_near:
  assumes "2 powi (- 1022) \<le> \<bar>x\<bar>" and "\<bar>x\<bar> < 2 powi 1023"
  shows "\<exists>y. dbl x = Num y \<and> \<bar>y - x\<bar> \<le> \<bar>x\<bar> / 2 ^ 53"
proof -
  from dbl_near_pos[OF assms] obtain y where
    y: "dbl \<bar>x\<bar> = Num y" "dbl (- \<bar>x\<bar>) = Num (- y)" "\<bar>y - \<bar>x\<bar>\<bar> \<le> \<bar>x\<bar> / 2 ^ 53"
    by blast
  show ?thesis
  proof (cases "0 \<le> x")
    case True
    then show ?thesis using y by auto
  next
    case False
    then have ax: "\<bar>x\<bar> = - x" by simp
    have "dbl x = Num (- y)" using y(2) ax by simp
    moreover have "\<bar>- y - x\<bar> \<le> \<bar>x\<bar> / 2 ^ 53" using y(3) ax by (simp add: abs_minus_commute)
    ultimately show ?thesis by blast
  qed
qed

lemma dbl_of_int:
  assumes "\<bar>n\<bar> \<le> 2 ^ 53"
  shows "dbl (of_int n) = Num (of_int n)"
proof -
  have main: "dbl (of_int k) = Num (of_int k) \<and> dbl (- of_int k) = Num (- of_int k)"
    if k: "0 < k" "k \<le> 2 ^ 53" for k :: int
  proof -
    let ?a = "of_int k :: rat"
    have pos: "0 < ?a" using k by simp
    let ?e = "ilog2 ?a"
    note B = ilog2_bounds[OF pos]
    have "(2::rat) powi 0 \<le> ?a" using k by simp
    then have "(2::rat) powi 0 < 2 powi (?e + 1)" using B(2) by (rule le_less_trans)
    then have e0: "0 \<le> ?e"
      by (metis add.commute leD not_le power_int_increasing one_le_numeral zless_imp_add1_zle add_le_cancel_left add.right_neutral)
    have "?a \<le> of_int (2 ^ 53)" using k(2) by (simp only: of_int_le_iff)
    then have "?a \<le> (2::rat) powi 53" by simp
    with B(1) have "(2::rat) powi ?e \<le> 2 powi 53" by (rule order_trans)
    then have e53: "?e \<le> 53" by (rule power_int_le_imp_le_exp[rotated]) simp_all
    let ?u = "max (?e - 52) (- 1074)"
    have u: "?u = ?e - 52" using e0 by simp
    have "\<exists>z. ?a / 2 powi ?u = of_int z"
    proof (cases "?e \<le> 52")
      case True
      have "?a / 2 powi (?e - 52) = ?a * 2 powi (52 - ?e)"
        by (simp add: power_int_diff field_simps)
      also have "\<dots> = ?a * 2 ^ nat (52 - ?e)" using True by (simp add: power_int_def)
      also have "\<dots> = of_int (k * 2 ^ nat (52 - ?e))" by simp
      finally show ?thesis unfolding u by blast
    next
      case False
      then have e: "?e = 53" using e53 by simp
      have "(2::rat) powi 53 \<le> ?a" using B(1) e by simp
      then have a: "?a = 2 powi 53" using \<open>?a \<le> 2 powi 53\<close> by simp
      have "?a / 2 powi (?e - 52) = 2 powi 53 / 2 powi 1" using a e by simp
      also have "\<dots> = (2::rat) powi (53 - 1)" by (rule power_int_diff[symmetric]) simp
      also have "\<dots> = of_int (2 ^ 52)" by simp
      finally show ?thesis unfolding u by blast
    qed
    then obtain z where z: "?a / 2 powi ?u = of_int z" ..
    have e1023: "?e < 1023" using e53 by simp
    have m1: "of_int z - 1 / 2 < ?a / 2 powi ?u" and m2: "?a / 2 powi ?u < of_int z + 1 / 2"
      using z by simp_all
    have r: "of_int z * 2 powi ?u = ?a"
      using z by (simp add: field_simps)
    from dbl_eval[OF B(1) B(2) e1023 refl m1 m2] show ?thesis
      unfolding r by simp
  qed
  consider "n = 0" | "0 < n" | "n < 0" by linarith
  then show ?thesis
  proof cases
    case 1
    then show ?thesis by (simp add: dbl_def)
  next
    case 2
    then show ?thesis using main[of n] assms by simp
  next
    case 3
    then have "0 < - n" "- n \<le> 2 ^ 53" using assms by simp_all
    from main[OF this] show ?thesis by simp
  qed
qed

subsection \<open>Network rates\<close>

text \<open>
  The two roundings of a rate (the elapsed seconds, then the quotient) followed by
  \<^verbatim>\<open>Math.round\<close> stay within a half plus a relative error of 2 to the power -51 of the exact
  quotient.
\<close>

lemma rounding_close:
  fixes x t :: rat
  assumes x: "x \<noteq> 0" and t: "\<bar>t - x\<bar> \<le> \<bar>x\<bar> / 2 ^ 53"
  shows "t \<noteq> 0" and "\<bar>x\<bar> \<le> 2 * \<bar>t\<bar>" and "\<bar>t\<bar> \<le> 2 * \<bar>x\<bar>"
proof -
  have xpos: "0 < \<bar>x\<bar>" using x by simp
  have "\<bar>x\<bar> / 2 ^ 53 \<le> \<bar>x\<bar> / 2"
    using xpos by (intro divide_left_mono) simp_all
  then have t': "\<bar>t - x\<bar> \<le> \<bar>x\<bar> / 2" using t by (rule order_trans[rotated])
  show half: "\<bar>x\<bar> \<le> 2 * \<bar>t\<bar>" using t' by linarith
  show "\<bar>t\<bar> \<le> 2 * \<bar>x\<bar>" using t' by linarith
  show "t \<noteq> 0" using half xpos by auto
qed

lemma two_roundings:
  fixes d x t q' :: rat
  assumes x: "x \<noteq> 0" and t: "\<bar>t - x\<bar> \<le> \<bar>x\<bar> / 2 ^ 53"
    and q: "\<bar>q' - d / t\<bar> \<le> \<bar>d / t\<bar> / 2 ^ 53"
  shows "\<bar>q' - d / x\<bar> \<le> \<bar>d / x\<bar> / 2 ^ 51"
proof -
  have xpos: "0 < \<bar>x\<bar>" using x by simp
  note tz = rounding_close(1)[OF x t] and half = rounding_close(2)[OF x t]
  have tpos: "0 < \<bar>t\<bar>" using tz by simp
  have A: "\<bar>d / t\<bar> \<le> 2 * \<bar>d / x\<bar>"
  proof -
    have "\<bar>d\<bar> / \<bar>t\<bar> \<le> \<bar>d\<bar> / (\<bar>x\<bar> / 2)"
      using half xpos by (intro divide_left_mono) simp_all
    then show ?thesis by (simp add: abs_divide mult.commute)
  qed
  have B: "\<bar>d / t - d / x\<bar> \<le> \<bar>d / t\<bar> / 2 ^ 53"
  proof -
    have "d / t - d / x = (d / t) * ((x - t) / x)"
      using x tz by (simp add: field_simps)
    then have "\<bar>d / t - d / x\<bar> = \<bar>d / t\<bar> * (\<bar>t - x\<bar> / \<bar>x\<bar>)"
      by (simp add: abs_mult abs_divide abs_minus_commute)
    also have "\<dots> \<le> \<bar>d / t\<bar> * (1 / 2 ^ 53)"
    proof (rule mult_left_mono)
      have "\<bar>t - x\<bar> / \<bar>x\<bar> \<le> (\<bar>x\<bar> / 2 ^ 53) / \<bar>x\<bar>"
        using t xpos by (intro divide_right_mono) simp_all
      then show "\<bar>t - x\<bar> / \<bar>x\<bar> \<le> 1 / 2 ^ 53" using xpos by simp
    qed simp
    finally show ?thesis by simp
  qed
  have "\<bar>q' - d / x\<bar> \<le> \<bar>q' - d / t\<bar> + \<bar>d / t - d / x\<bar>" by simp
  also have "\<dots> \<le> 2 * (\<bar>d / t\<bar> / 2 ^ 53)" using q B by linarith
  also have "\<dots> \<le> 2 * (2 * \<bar>d / x\<bar> / 2 ^ 53)" using A by simp
  also have "\<dots> = \<bar>d / x\<bar> / 2 ^ 51" by simp
  finally show ?thesis .
qed

lemma pow2_range:
  fixes a :: rat
  assumes "1 / 2 ^ 54 \<le> a" and "a \<le> 2 ^ 64"
  shows "2 powi (- 1022) \<le> a" and "a < 2 powi 1023"
proof -
  have "(2::rat) powi (- 1022) \<le> 2 powi (- 54)"
    by (intro power_int_increasing) simp_all
  also have "(2::rat) powi (- 54) = 1 / 2 ^ 54"
    by (simp add: power_int_minus field_simps)
  finally show "2 powi (- 1022) \<le> a" using assms(1) by linarith
  have "(2::rat) ^ 64 < 2 powi 65" by simp
  also have "(2::rat) powi 65 \<le> 2 powi 1023"
    by (intro power_int_increasing) simp_all
  finally show "a < 2 powi 1023" using assms(2) by linarith
qed

lemma rate_near:
  assumes ms: "ms \<noteq> 0" "\<bar>ms\<bar> \<le> 2 ^ 53" and dl: "\<bar>dl\<bar> \<le> 2 ^ 53"
  shows "\<exists>r. js_round (d_div (Num (of_int dl)) (d_div (Num (of_int ms)) (Num 1000)))
                = Num (of_int r)
            \<and> \<bar>of_int r - (of_int dl :: rat) / (of_int ms / 1000)\<bar>
                \<le> 1 / 2 + \<bar>(of_int dl :: rat) / (of_int ms / 1000)\<bar> / 2 ^ 51"
proof -
  define x :: rat where "x = of_int ms / 1000"
  have xnz: "x \<noteq> 0" using ms(1) by (simp add: x_def)
  have ams: "1 \<le> \<bar>ms\<bar>" using ms(1) by simp
  have "(1::rat) \<le> of_int \<bar>ms\<bar>" using ams by (simp only: of_int_1_le_iff)
  then have xlo: "1 / 1000 \<le> \<bar>x\<bar>" by (simp add: x_def)
  have "(of_int \<bar>ms\<bar> :: rat) \<le> of_int (2 ^ 53)" using ms(2) by (simp only: of_int_le_iff)
  then have xhi: "\<bar>x\<bar> \<le> 2 ^ 53 / 1000" by (simp add: x_def)
  have "2 powi (- 1022) \<le> \<bar>x\<bar>" "\<bar>x\<bar> < 2 powi 1023"
    using xlo xhi by (intro pow2_range; simp)+
  from dbl_near[OF this] obtain t where t: "dbl x = Num t" "\<bar>t - x\<bar> \<le> \<bar>x\<bar> / 2 ^ 53"
    by blast
  have td: "d_div (Num (of_int ms)) (Num 1000) = Num t"
    using t(1) by (simp add: d_div_def x_def)
  show ?thesis
  proof (cases "dl = 0")
    case True
    have tz: "t \<noteq> 0" using xnz t(2) by (rule rounding_close(1))
    have fl: "\<lfloor>(1::rat) / 2\<rfloor> = 0" by (rule floor_unique) simp_all
    have "js_round (d_div (Num (of_int dl)) (Num t)) = Num (of_int 0)"
      using True tz by (simp add: d_div_def dbl_def fl)
    then show ?thesis unfolding td using True by (intro exI[of _ 0]) simp
  next
    case False
    define y :: rat where "y = of_int dl / t"
    have adl: "1 \<le> \<bar>dl\<bar>" using False by simp
    have dlo: "(1::rat) \<le> \<bar>of_int dl\<bar>" using adl by (metis of_int_1_le_iff of_int_abs)
    have "(of_int \<bar>dl\<bar> :: rat) \<le> of_int (2 ^ 53)" using dl by (simp only: of_int_le_iff)
    then have dhi: "\<bar>of_int dl :: rat\<bar> \<le> 2 ^ 53" by simp
    note C = rounding_close[OF xnz t(2)]
    have tlo: "1 / 2000 \<le> \<bar>t\<bar>" using C(2) xlo by linarith
    have thi: "\<bar>t\<bar> \<le> 2 ^ 54" using C(3) xhi by simp
    have tz: "t \<noteq> 0" by (rule C(1))
    have ay: "\<bar>y\<bar> = \<bar>of_int dl\<bar> / \<bar>t\<bar>" by (simp add: y_def abs_divide)
    have "1 / 2 ^ 54 \<le> 1 / \<bar>t\<bar>" using thi tz by (intro divide_left_mono) simp_all
    also have "\<dots> \<le> \<bar>of_int dl\<bar> / \<bar>t\<bar>" using dlo tz by (intro divide_right_mono) simp_all
    finally have ylo: "1 / 2 ^ 54 \<le> \<bar>y\<bar>" by (simp only: ay)
    have "\<bar>of_int dl\<bar> / \<bar>t\<bar> \<le> 2 ^ 53 / \<bar>t\<bar>" using dhi tz by (intro divide_right_mono) simp_all
    also have "\<dots> \<le> 2 ^ 53 / (1 / 2000)" using tlo by (intro divide_left_mono) simp_all
    also have "\<dots> \<le> (2::rat) ^ 64" by simp
    finally have yhi: "\<bar>y\<bar> \<le> 2 ^ 64" by (simp only: ay)
    have "2 powi (- 1022) \<le> \<bar>y\<bar>" "\<bar>y\<bar> < 2 powi 1023"
      using ylo yhi by (rule pow2_range)+
    from dbl_near[OF this] obtain q' where q: "dbl y = Num q'" "\<bar>q' - y\<bar> \<le> \<bar>y\<bar> / 2 ^ 53"
      by blast
    have qd: "d_div (Num (of_int dl)) (Num t) = Num q'"
      using q(1) tz by (simp add: d_div_def y_def)
    have near: "\<bar>q' - of_int dl / x\<bar> \<le> \<bar>of_int dl / x\<bar> / 2 ^ 51"
      using xnz t(2) q(2) unfolding y_def by (rule two_roundings)
    define r where "r = \<lfloor>q' + 1 / 2\<rfloor>"
    have "\<bar>of_int r - q'\<bar> \<le> 1 / 2" unfolding r_def by linarith
    then have "\<bar>of_int r - of_int dl / x\<bar> \<le> 1 / 2 + \<bar>of_int dl / x\<bar> / 2 ^ 51"
      using near by linarith
    moreover have "js_round (d_div (Num (of_int dl)) (Num t)) = Num (of_int r)"
      unfolding qd r_def by simp
    ultimately show ?thesis unfolding td x_def by blast
  qed
qed

lemma not_inherited:
  assumes "key \<notin> set objectPrototypeNames" and "prototype m = None"
  shows "readPrevious m key = (case previousStats m key of None \<Rightarrow> Absent | Some p \<Rightarrow> Sample p)"
proof -
  have "key \<noteq> ''__proto__''" using assms(1) by (auto simp: objectPrototypeNames_def)
  then show ?thesis using assms by (simp add: readPrevious_def split: option.splits)
qed

lemma not_proto:
  "key \<notin> set objectPrototypeNames \<Longrightarrow> key \<noteq> ''__proto__''"
  by (auto simp: objectPrototypeNames_def)

lemma observe_Sample:
  assumes "readPrevious m (iface i) = Sample p"
  shows "rxSpeed (fst (observe pf m i))
        = js_round (d_div (d_sub (Num (of_int (rx_bytes i))) (Num (of_int (p_rx_bytes p))))
                          (d_div (d_sub (Num (of_int (clock pf (m_ticks m))))
                                        (Num (of_int (p_timestamp p))))
                                 (Num 1000)))"
    and "txSpeed (fst (observe pf m i))
        = js_round (d_div (d_sub (Num (of_int (tx_bytes i))) (Num (of_int (p_tx_bytes p))))
                          (d_div (d_sub (Num (of_int (clock pf (m_ticks m))))
                                        (Num (of_int (p_timestamp p))))
                                 (Num 1000)))"
  using assms by (simp_all add: observe_def Let_def split: prod.splits)

lemma observe_Opaque:
  assumes "readPrevious m (iface i) = Opaque"
  shows "rxSpeed (fst (observe pf m i)) = NaN" and "txSpeed (fst (observe pf m i)) = NaN"
  using assms by (simp_all add: observe_def Let_def d_sub_def d_div_def split: prod.splits)

lemma d_sub_int:
  assumes "\<bar>a - b\<bar> \<le> 2 ^ 53"
  shows "d_sub (Num (of_int a)) (Num (of_int b)) = Num (of_int (a - b))"
  using dbl_of_int[OF assms] by (simp add: d_sub_def)

lemma dbl_272: "dbl (34 / 125) = Num (4899916394579100 * 2 powi (- 54))"
proof -
  have "dbl (34 / 125) = Num (of_int 4899916394579100 * 2 powi (- 54))"
    by (rule dbl_eval(1)[where e = "- 2"]) (simp_all add: power_int_minus)
  then show ?thesis by simp
qed

lemma dbl_17_272:
  "dbl (17 / (4899916394579100 * 2 powi (- 54))) = Num (8796093022207999 * 2 powi (- 47))"
proof -
  have "dbl (17 / (4899916394579100 * 2 powi (- 54)))
          = Num (of_int 8796093022207999 * 2 powi (- 47))"
    by (rule dbl_eval(1)[where e = 5]) (simp_all add: power_int_minus)
  then show ?thesis by simp
qed

lemma dbl_third: "dbl (1000 / 3) = Num (5864062014805333 * 2 powi (- 44))"
proof -
  have "dbl (1000 / 3) = Num (of_int 5864062014805333 * 2 powi (- 44))"
    by (rule dbl_eval(1)[where e = 8]) (simp_all add: power_int_minus)
  then show ?thesis by simp
qed

lemma dbl_small:
  "dbl 1000 = Num 1000" "dbl 17 = Num 17" "dbl 3 = Num 3" "dbl 6 = Num 6"
  "dbl 2 = Num 2" "dbl 2000 = Num 2000"
  "dbl 500 = Num 500" "dbl 250 = Num 250" "dbl 1500 = Num 1500"
  "dbl 272 = Num 272" "dbl 3000 = Num 3000" "dbl 6000 = Num 6000"
  using dbl_of_int[of 1000] dbl_of_int[of 17] dbl_of_int[of 3] dbl_of_int[of 6]
    dbl_of_int[of 500] dbl_of_int[of 250] dbl_of_int[of 1500] dbl_of_int[of 272]
    dbl_of_int[of 3000] dbl_of_int[of 6000] dbl_of_int[of 2] dbl_of_int[of 2000]
  by simp_all

lemma rate_500:
  "js_round (d_div (d_sub (Num 6500) (Num 5000)) (d_div (d_sub (Num 3000) (Num 0)) (Num 1000)))
     = Num 500"
proof -
  have "\<lfloor>(1001::rat) / 2\<rfloor> = 500" by (rule floor_unique) simp_all
  then show ?thesis by (simp add: d_sub_def d_div_def dbl_small)
qed

lemma rate_spec:
  "js_round (d_div (d_sub (Num 6000) (Num 5000)) (d_div (d_sub (Num 2000) (Num 0)) (Num 1000)))
     = Num 500"
proof -
  have "\<lfloor>(1001::rat) / 2\<rfloor> = 500" by (rule floor_unique) simp_all
  then show ?thesis by (simp add: d_sub_def d_div_def dbl_small)
qed

lemma rate_250:
  "js_round (d_div (d_sub (Num 6500) (Num 5000)) (d_div (d_sub (Num 6000) (Num 0)) (Num 1000)))
     = Num 250"
proof -
  have "\<lfloor>(501::rat) / 2\<rfloor> = 250" by (rule floor_unique) simp_all
  then show ?thesis by (simp add: d_sub_def d_div_def dbl_small)
qed

lemma rate_62:
  "js_round (d_div (d_sub (Num 5017) (Num 5000)) (d_div (d_sub (Num 272) (Num 0)) (Num 1000)))
     = Num 62"
proof -
  have a: "d_sub (Num 5017) (Num 5000) = Num 17" "d_sub (Num 272) (Num 0) = Num 272"
    by (simp_all add: d_sub_def dbl_small)
  have b: "d_div (Num 272) (Num 1000) = Num (4899916394579100 * 2 powi (- 54))"
    using dbl_272 by (simp add: d_div_def)
  have c: "d_div (Num 17) (Num (4899916394579100 * 2 powi (- 54)))
             = Num (8796093022207999 * 2 powi (- 47))"
    using dbl_17_272 by (simp add: d_div_def)
  have "\<lfloor>8796093022207999 * (2::rat) powi (- 47) + 1 / 2\<rfloor> = 62"
    by (rule floor_unique) (simp_all add: power_int_minus)
  then show ?thesis unfolding a b c by simp
qed

lemma rate_333:
  "js_round (d_div (d_sub (Num 6000) (Num 5000)) (d_div (d_sub (Num 3000) (Num 0)) (Num 1000)))
     = Num 333"
proof -
  have a: "d_sub (Num 6000) (Num 5000) = Num 1000" "d_sub (Num 3000) (Num 0) = Num 3000"
    by (simp_all add: d_sub_def dbl_small)
  have b: "d_div (Num 3000) (Num 1000) = Num 3"
    by (simp add: d_div_def dbl_small)
  have c: "d_div (Num 1000) (Num 3) = Num (5864062014805333 * 2 powi (- 44))"
    using dbl_third by (simp add: d_div_def)
  have "\<lfloor>5864062014805333 * (2::rat) powi (- 44) + 1 / 2\<rfloor> = 333"
    by (rule floor_unique) (simp_all add: power_int_minus)
  then show ?thesis unfolding a b c by simp
qed

section \<open>The properties\<close>

text \<open>
  C1. For an application whose database descriptor is of a supported engine kind (the
  switch yields an artifact name and a command), once the backup directory exists and
  the subprocess completes with exit status zero: if the destination artifact stats to
  zero bytes, createBackup fails with EmptyArtifact, whatever the process printed; if
  it stats to a positive size, createBackup does not fail with EmptyArtifact.
\<close>

theorem createBackup_empty_artifact:
  assumes "find (\<lambda>a. name a = appName) (applications cfg) = Some app"
    and "database app = Some d"
    and "mkdir_p (dirSize pf) (clock pf (ticks w)) (path_join [] appName) (files w) = Some fs1"
    and "backupSwitch d (dashed (toISOString pf (clock pf (ticks w))))
           (\<lambda>f. renderPath cfg (path_join (path_join [] appName) f)) = Inr (f, cmd)"
    and "execAsync pf cmd fs1 = (fs2, Inr out)"
    and "lookup fs2 (path_join (path_join [] appName) f) = Some st"
  shows "(fsize st = 0 \<longrightarrow>
            createBackup cfg pf appName w =
              (Inl EmptyArtifact,
               w\<lparr>ticks := Suc (ticks w), files := fs2, execLog := execLog w @ [cmd]\<rparr>))
       \<and> (0 < fsize st \<longrightarrow> fst (createBackup cfg pf appName w) \<noteq> Inl EmptyArtifact)"
proof
  show "fsize st = 0 \<longrightarrow>
            createBackup cfg pf appName w =
              (Inl EmptyArtifact,
               w\<lparr>ticks := Suc (ticks w), files := fs2, execLog := execLog w @ [cmd]\<rparr>)"
    using assms
    by (simp add: createBackup_def executeBackup_def runCommand_def now_def Let_def)
  show "0 < fsize st \<longrightarrow> fst (createBackup cfg pf appName w) \<noteq> Inl EmptyArtifact"
  proof
    assume pos: "0 < fsize st"
    let ?w1 = "w\<lparr>ticks := Suc (ticks w), files := fs2, execLog := execLog w @ [cmd]\<rparr>"
    let ?c = "cleanupOldBackups pf appName (retentionOf cfg d) ?w1"
    have cb: "createBackup cfg pf appName w =
       (case ?c of
          (Inl e, w2) \<Rightarrow> (Inl e, w2)
        | (Inr deleted, w2) \<Rightarrow>
            (let (t, w3) = now pf w2 in
               (Inr \<lparr>r_application = appName,
                     r_file = renderPath cfg (path_join (path_join [] appName) f),
                     r_size = fsize st,
                     r_timestamp = toISOString pf t\<rparr>, w3)))"
      using assms pos
      by (simp add: createBackup_def executeBackup_def runCommand_def now_def Let_def)
    show "fst (createBackup cfg pf appName w) \<noteq> Inl EmptyArtifact"
    proof (cases ?c)
      case (Pair r w2)
      show ?thesis
      proof (cases r)
        case (Inl e)
        then have "fst ?c = Inl e" using Pair by simp
        then have "e \<noteq> EmptyArtifact" by (rule cleanupOldBackups_error)
        then show ?thesis using cb Pair Inl by simp
      next
        case (Inr k)
        then show ?thesis using cb Pair by (simp add: now_def)
      qed
    qed
  qed
qed

theorem createBackup_empty_artifact_witness:
  "createBackup demoConfig emptyPlatform ''blog'' demoWorld =
     (Inl EmptyArtifact,
      \<lparr>files = Dir 4096 0 [(''blog'', Dir 4096 8640000000 [(demoArtifact, File 0 8640000000)])],
       execLog = [''docker exec pg-main pg_dump -U postgres blog_db | gzip > backups/blog/backup-2026-01-01T02-00-00-000Z.sql.gz''],
       ticks = 1\<rparr>)
   \<and> fst (createBackup demoConfig demoPlatform ''blog'' demoWorld) \<noteq> Inl EmptyArtifact"
proof -
  let ?cmd = "''docker exec pg-main pg_dump -U postgres blog_db | gzip > backups/blog/backup-2026-01-01T02-00-00-000Z.sql.gz''"
  let ?fs1 = "Dir 4096 0 [(''blog'', Dir 4096 8640000000 [])]"
  let ?fs2 = "\<lambda>n. Dir 4096 0 [(''blog'', Dir 4096 8640000000 [(demoArtifact, File n 8640000000)])]"
  have a: "find (\<lambda>a. name a = ''blog'') (applications demoConfig) = Some appBlog"
    by code_simp
  have b: "database appBlog = Some pgDb"
    by code_simp
  have c: "mkdir_p (dirSize emptyPlatform) (clock emptyPlatform (ticks demoWorld))
             (path_join [] ''blog'') (files demoWorld) = Some ?fs1"
    by code_simp
  have d: "backupSwitch pgDb (dashed (toISOString emptyPlatform (clock emptyPlatform (ticks demoWorld))))
             (\<lambda>f. renderPath demoConfig (path_join (path_join [] ''blog'') f))
           = Inr (demoArtifact, ?cmd)"
    by code_simp
  have e: "execAsync emptyPlatform ?cmd ?fs1 = (?fs2 0, Inr ([], []))"
    by code_simp
  have f: "lookup (?fs2 0) (path_join (path_join [] ''blog'') demoArtifact) = Some (File 0 8640000000)"
    by code_simp
  have c': "mkdir_p (dirSize demoPlatform) (clock demoPlatform (ticks demoWorld))
             (path_join [] ''blog'') (files demoWorld) = Some ?fs1"
    by code_simp
  have d': "backupSwitch pgDb (dashed (toISOString demoPlatform (clock demoPlatform (ticks demoWorld))))
             (\<lambda>f. renderPath demoConfig (path_join (path_join [] ''blog'') f))
           = Inr (demoArtifact, ?cmd)"
    by code_simp
  have e': "execAsync demoPlatform ?cmd ?fs1 = (?fs2 2048, Inr ([], []))"
    by code_simp
  have f': "lookup (?fs2 2048) (path_join (path_join [] ''blog'') demoArtifact) = Some (File 2048 8640000000)"
    by code_simp
  have w: "demoWorld\<lparr>ticks := Suc (ticks demoWorld), files := ?fs2 0,
                      execLog := execLog demoWorld @ [?cmd]\<rparr>
           = \<lparr>files = ?fs2 0, execLog = [?cmd], ticks = 1\<rparr>"
    by (simp add: demoWorld_def)
  show ?thesis
    using createBackup_empty_artifact[OF a b c d e f]
          createBackup_empty_artifact[OF a b c' d' e' f'] w
    by simp
qed

text \<open>
  C2 (as amended). For an application directory that holds artifacts (regular files
  with distinct, non-empty names), cleanupOldBackups deletes exactly the artifacts
  created strictly before the cutoff and returns their number; the others survive. The
  cutoff is the instant at which local time shows the wall-clock time of now,
  retentionDays calendar days earlier; it is now minus retentionDays times 24 hours
  when the local offset from UTC is the same at both instants; when it lies outside the
  range of Date, nothing is deleted. A repeated cleanup for which no surviving artifact
  has become expirable deletes nothing and returns zero.
\<close>

theorem cleanup_retention:
  assumes "appName \<noteq> []"
    and "files w = Dir s b es"
    and "map_of es appName = Some (Dir s' b' fl)"
    and "distinct (map fst fl)"
    and "\<forall>e \<in> set fl. fst e \<noteq> [] \<and> \<not> isDirectory (snd e)"
    and "wall = clock pf (ticks w) + localTZA pf (clock pf (ticks w)) True - days * 86400000"
    and "cutoff = wall - localTZA pf wall False"
    and "wall2 = clock pf (Suc (ticks w)) + localTZA pf (clock pf (Suc (ticks w))) True
                   - days2 * 86400000"
    and "cutoff2 = wall2 - localTZA pf wall2 False"
  shows "cleanupOldBackups pf appName days w =
           (Inr (length (filter (\<lambda>e. \<bar>cutoff\<bar> \<le> 8640000000000000
                                        \<and> birthtime (snd e) < cutoff) fl)),
            w\<lparr>ticks := Suc (ticks w),
              files := Dir s b (AList.update appName
                (Dir s' b' (filter (\<lambda>e. \<not> (\<bar>cutoff\<bar> \<le> 8640000000000000
                                              \<and> birthtime (snd e) < cutoff)) fl))
                es)\<rparr>)
       \<and> (localTZA pf wall False = localTZA pf (clock pf (ticks w)) True
            \<longrightarrow> cutoff = clock pf (ticks w) - days * 86400000)
       \<and> ((\<forall>e \<in> set fl. \<not> (\<bar>cutoff\<bar> \<le> 8640000000000000 \<and> birthtime (snd e) < cutoff)
               \<longrightarrow> \<not> (\<bar>cutoff2\<bar> \<le> 8640000000000000 \<and> birthtime (snd e) < cutoff2))
           \<longrightarrow> cleanupOldBackups pf appName days2 (snd (cleanupOldBackups pf appName days w))
                 = (Inr 0, (snd (cleanupOldBackups pf appName days w))\<lparr>ticks := Suc (Suc (ticks w))\<rparr>))"
proof -
  let ?old = "\<lambda>e. \<bar>cutoff\<bar> \<le> 8640000000000000 \<and> birthtime (snd e) < cutoff"
  let ?old2 = "\<lambda>e. \<bar>cutoff2\<bar> \<le> 8640000000000000 \<and> birthtime (snd e) < cutoff2"
  let ?fl' = "filter (\<lambda>e. \<not> ?old e) fl"
  let ?es' = "AList.update appName (Dir s' b' ?fl') es"
  let ?w' = "w\<lparr>ticks := Suc (ticks w), files := Dir s b ?es'\<rparr>"
  have c1: "\<And>c. createdBefore c (cutoffDate pf (clock pf (ticks w)) days)
               \<longleftrightarrow> \<bar>cutoff\<bar> \<le> 8640000000000000 \<and> c < cutoff"
    using assms(6,7) by (simp add: createdBefore_cutoff)
  have c2: "\<And>c. createdBefore c (cutoffDate pf (clock pf (Suc (ticks w))) days2)
               \<longleftrightarrow> \<bar>cutoff2\<bar> \<le> 8640000000000000 \<and> c < cutoff2"
    using assms(8,9) by (simp add: createdBefore_cutoff)
  have first: "cleanupOldBackups pf appName days w = (Inr (length (filter ?old fl)), ?w')"
    using cleanup_result[OF assms(1-5), of pf days] unfolding c1 .
  have offs: "localTZA pf wall False = localTZA pf (clock pf (ticks w)) True
            \<longrightarrow> cutoff = clock pf (ticks w) - days * 86400000"
    using assms(6,7) by simp
  have second: "cleanupOldBackups pf appName days2 ?w' = (Inr 0, ?w'\<lparr>ticks := Suc (Suc (ticks w))\<rparr>)"
    if fresh: "\<forall>e \<in> set fl. \<not> ?old e \<longrightarrow> \<not> ?old2 e"
  proof -
    have f: "files ?w' = Dir s b ?es'" by simp
    have m: "map_of ?es' appName = Some (Dir s' b' ?fl')" by (simp add: AList.update_conv')
    have d: "distinct (map fst ?fl')" using assms(4) by (rule distinct_map_filter)
    have p: "\<forall>e \<in> set ?fl'. fst e \<noteq> [] \<and> \<not> isDirectory (snd e)" using assms(5) by simp
    have tick: "ticks ?w' = Suc (ticks w)" by simp
    have none: "filter ?old2 ?fl' = []"
      by (rule filter_False) (use fresh in simp)
    have all: "filter (\<lambda>e. \<not> ?old2 e) ?fl' = ?fl'"
      by (rule filter_True) (use fresh in simp)
    show ?thesis
      using cleanup_result[OF assms(1) f m d p, of pf days2]
      unfolding tick c2 none all by simp
  qed
  show ?thesis using first offs second by simp
qed

theorem cleanup_retention_witness:
  "cleanupOldBackups demoPlatform ''blog'' 7 agedWorld =
     (Inr 2,
      \<lparr>files = Dir 4096 0 [(''blog'', Dir 4096 0 [(''d1.sql.gz'', File 10 8553600000)]),
                           (''shop'', Dir 4096 0 [(''old.sql.gz'', File 10 0)])],
       execLog = [], ticks = 1\<rparr>)
   \<and> cleanupOldBackups demoPlatform ''blog'' 7
        (snd (cleanupOldBackups demoPlatform ''blog'' 7 agedWorld)) =
     (Inr 0,
      \<lparr>files = Dir 4096 0 [(''blog'', Dir 4096 0 [(''d1.sql.gz'', File 10 8553600000)]),
                           (''shop'', Dir 4096 0 [(''old.sql.gz'', File 10 0)])],
       execLog = [], ticks = 2\<rparr>)
   \<and> cleanupOldBackups demoPlatform ''blog'' 20 agedWorld =
     (Inr 1,
      \<lparr>files = Dir 4096 0 [(''blog'', Dir 4096 0 [(''d1.sql.gz'', File 10 8553600000),
                                                  (''d8.sql.gz'', File 10 7948800000)]),
                           (''shop'', Dir 4096 0 [(''old.sql.gz'', File 10 0)])],
       execLog = [], ticks = 1\<rparr>)"
proof -
  let ?es = "[(''blog'', Dir 4096 0 agedArtifacts), (''shop'', Dir 4096 0 [(''old.sql.gz'', File 10 0)])]"
  have a: "''blog'' \<noteq> []" by simp
  have b: "files agedWorld = Dir 4096 0 ?es" by (simp add: agedWorld_def)
  have c: "map_of ?es ''blog'' = Some (Dir 4096 0 agedArtifacts)" by simp
  have d: "distinct (map fst agedArtifacts)" by (simp add: agedArtifacts_def)
  have e: "\<forall>e \<in> set agedArtifacts. fst e \<noteq> [] \<and> \<not> isDirectory (snd e)"
    by (simp add: agedArtifacts_def)
  have w7: "(8640000000 - 7 * 86400000 :: int)
              = clock demoPlatform (ticks agedWorld)
                + localTZA demoPlatform (clock demoPlatform (ticks agedWorld)) True - 7 * 86400000"
    by (simp add: demoPlatform_def agedWorld_def)
  have c7: "(8035200000 :: int)
              = (8640000000 - 7 * 86400000) - localTZA demoPlatform (8640000000 - 7 * 86400000) False"
    by (simp add: demoPlatform_def)
  have w7': "(8640000001 - 7 * 86400000 :: int)
              = clock demoPlatform (Suc (ticks agedWorld))
                + localTZA demoPlatform (clock demoPlatform (Suc (ticks agedWorld))) True - 7 * 86400000"
    by (simp add: demoPlatform_def agedWorld_def)
  have c7': "(8035200001 :: int)
              = (8640000001 - 7 * 86400000) - localTZA demoPlatform (8640000001 - 7 * 86400000) False"
    by (simp add: demoPlatform_def)
  have w20: "(8640000000 - 20 * 86400000 :: int)
              = clock demoPlatform (ticks agedWorld)
                + localTZA demoPlatform (clock demoPlatform (ticks agedWorld)) True - 20 * 86400000"
    by (simp add: demoPlatform_def agedWorld_def)
  have c20: "(6912000000 :: int)
              = (8640000000 - 20 * 86400000) - localTZA demoPlatform (8640000000 - 20 * 86400000) False"
    by (simp add: demoPlatform_def)
  have old7: "filter (\<lambda>e. \<bar>8035200000\<bar> \<le> (8640000000000000::int) \<and> birthtime (snd e) < 8035200000) agedArtifacts
               = [(''d8.sql.gz'', File 10 7948800000), (''d30.sql.gz'', File 10 6048000000)]"
    by (simp add: agedArtifacts_def)
  have keep7: "filter (\<lambda>e. \<not> (\<bar>8035200000\<bar> \<le> (8640000000000000::int) \<and> birthtime (snd e) < 8035200000)) agedArtifacts
               = [(''d1.sql.gz'', File 10 8553600000)]"
    by (simp add: agedArtifacts_def)
  have old20: "filter (\<lambda>e. \<bar>6912000000\<bar> \<le> (8640000000000000::int) \<and> birthtime (snd e) < 6912000000) agedArtifacts
               = [(''d30.sql.gz'', File 10 6048000000)]"
    by (simp add: agedArtifacts_def)
  have keep20: "filter (\<lambda>e. \<not> (\<bar>6912000000\<bar> \<le> (8640000000000000::int) \<and> birthtime (snd e) < 6912000000)) agedArtifacts
               = [(''d1.sql.gz'', File 10 8553600000), (''d8.sql.gz'', File 10 7948800000)]"
    by (simp add: agedArtifacts_def)
  have fresh: "\<forall>e \<in> set agedArtifacts.
                 \<not> (\<bar>8035200000\<bar> \<le> (8640000000000000::int) \<and> birthtime (snd e) < 8035200000)
                 \<longrightarrow> \<not> (\<bar>8035200001\<bar> \<le> (8640000000000000::int) \<and> birthtime (snd e) < 8035200001)"
    by (simp add: agedArtifacts_def)
  let ?w1 = "\<lparr>files = Dir 4096 0 [(''blog'', Dir 4096 0 [(''d1.sql.gz'', File 10 8553600000)]),
                           (''shop'', Dir 4096 0 [(''old.sql.gz'', File 10 0)])],
               execLog = [], ticks = 1\<rparr>"
  note t7 = cleanup_retention[OF a b c d e w7 c7 w7' c7', unfolded old7 keep7]
  note t20 = cleanup_retention[OF a b c d e w20 c20 w7' c7', unfolded old20 keep20]
  from t7 have A: "cleanupOldBackups demoPlatform ''blog'' 7 agedWorld = (Inr 2, ?w1)"
    by (simp add: agedWorld_def)
  from t7 fresh have "cleanupOldBackups demoPlatform ''blog'' 7
        (snd (cleanupOldBackups demoPlatform ''blog'' 7 agedWorld))
       = (Inr 0, (snd (cleanupOldBackups demoPlatform ''blog'' 7 agedWorld))
                   \<lparr>ticks := Suc (Suc (ticks agedWorld))\<rparr>)"
    by blast
  then have B: "cleanupOldBackups demoPlatform ''blog'' 7 ?w1 = (Inr 0, ?w1\<lparr>ticks := 2\<rparr>)"
    unfolding A by (simp add: agedWorld_def)
  from t20 have C: "cleanupOldBackups demoPlatform ''blog'' 20 agedWorld =
     (Inr 1,
      \<lparr>files = Dir 4096 0 [(''blog'', Dir 4096 0 [(''d1.sql.gz'', File 10 8553600000),
                                                  (''d8.sql.gz'', File 10 7948800000)]),
                           (''shop'', Dir 4096 0 [(''old.sql.gz'', File 10 0)])],
       execLog = [], ticks = 1\<rparr>)"
    by (simp add: agedWorld_def)
  show ?thesis unfolding A C using B by simp
qed

text \<open>
  C2 as stated fails in two ways. Where local time changes its offset from UTC between
  the cutoff and now, the cutoff is not now minus retentionDays times 24 hours: in New
  York on 10 March 2026, 08:00 local time, with seven retention days, an artifact
  created 800 seconds after now minus seven times 24 hours is deleted. Where the cutoff
  lies outside the range of Date, the comparison with an invalid date is false and an
  artifact older than the retention period survives.
\<close>

theorem cleanup_retention_counterexample:
  "cleanupOldBackups nyPlatform ''blog'' 7 nyWorld =
     (Inr 1, \<lparr>files = Dir 4096 0 [(''blog'', Dir 4096 0 [])], execLog = [], ticks = 1\<rparr>)
   \<and> clock nyPlatform 0 - 7 * 86400000 = 1772539200000
   \<and> \<not> (1772540000000 < (1772539200000 :: int))
   \<and> cleanupOldBackups demoPlatform ''blog'' (- 200000000) agedWorld =
       (Inr 0,
        \<lparr>files = Dir 4096 0 [(''blog'', Dir 4096 0 agedArtifacts),
                             (''shop'', Dir 4096 0 [(''old.sql.gz'', File 10 0)])],
         execLog = [], ticks = 1\<rparr>)
   \<and> clock demoPlatform 0 - (- 200000000) * 86400000 = 17280008640000000
   \<and> (8553600000 :: int) < 17280008640000000"
proof -
  have ny: "cleanupOldBackups nyPlatform ''blog'' 7 nyWorld =
     (Inr 1, \<lparr>files = Dir 4096 0 [(''blog'', Dir 4096 0 [])], execLog = [], ticks = 1\<rparr>)"
    by code_simp
  have far: "cleanupOldBackups demoPlatform ''blog'' (- 200000000) agedWorld =
       (Inr 0,
        \<lparr>files = Dir 4096 0 [(''blog'', Dir 4096 0 agedArtifacts),
                             (''shop'', Dir 4096 0 [(''old.sql.gz'', File 10 0)])],
         execLog = [], ticks = 1\<rparr>)"
    by code_simp
  show ?thesis unfolding ny far
    by (simp add: nyPlatform_def demoPlatform_def)
qed

text \<open>
  C3. createAllBackups attempts exactly the applications that carry a database
  descriptor, in roster order, and returns one entry for each of them, whatever the
  outcomes: after an application's backup, failed or not, the loop goes on with the
  next application, and the entry records the success or the failure with its message.
\<close>

theorem createAllBackups_entries:
  "map entry_application (fst (createAllBackups cfg pf w))
     = map name (filter (\<lambda>a. database a \<noteq> None) (applications cfg))
   \<and> length (fst (createAllBackups cfg pf w))
     = length (filter (\<lambda>a. database a \<noteq> None) (applications cfg))
   \<and> (\<forall>app rest v rs. database app \<noteq> None \<longrightarrow>
         createAllLoop cfg pf (app # rest) v rs =
           createAllLoop cfg pf rest (snd (createBackup cfg pf (name app) v))
             (rs @ [entryOf (name app) (fst (createBackup cfg pf (name app) v))]))"
proof -
  have m: "map entry_application (fst (createAllBackups cfg pf w))
     = map name (filter (\<lambda>a. database a \<noteq> None) (applications cfg))"
    unfolding createAllBackups_def by (simp add: createAllLoop_applications)
  have "length (map entry_application (fst (createAllBackups cfg pf w)))
     = length (map name (filter (\<lambda>a. database a \<noteq> None) (applications cfg)))"
    by (simp only: m)
  then have l: "length (fst (createAllBackups cfg pf w))
     = length (filter (\<lambda>a. database a \<noteq> None) (applications cfg))"
    by simp
  show ?thesis using m l createAllLoop_step by auto
qed

theorem createAllBackups_entries_witness:
  "fst (createAllBackups demoConfig demoPlatform demoWorld) =
     [Succeeded \<lparr>r_application = ''blog'',
                 r_file = ''backups/blog/backup-2026-01-01T02-00-00-000Z.sql.gz'',
                 r_size = 2048, r_timestamp = ''2026-01-01T02:00:00.000Z''\<rparr>,
      Failed ''legacy'' ''Unsupported database type: oracle'']
   \<and> lookup (files (snd (createAllBackups demoConfig demoPlatform demoWorld))) [''blog'', demoArtifact]
       = Some (File 2048 8640000000)
   \<and> map name (filter (\<lambda>a. database a \<noteq> None) (applications demoConfig)) = [''blog'', ''legacy'']"
proof -
  have blog: "createBackup demoConfig demoPlatform ''blog'' demoWorld =
      (Inr \<lparr>r_application = ''blog'',
            r_file = ''backups/blog/backup-2026-01-01T02-00-00-000Z.sql.gz'',
            r_size = 2048, r_timestamp = ''2026-01-01T02:00:00.000Z''\<rparr>,
       \<lparr>files = Dir 4096 0 [(''blog'', Dir 4096 8640000000 [(demoArtifact, File 2048 8640000000)])],
        execLog = [''docker exec pg-main pg_dump -U postgres blog_db | gzip > backups/blog/backup-2026-01-01T02-00-00-000Z.sql.gz''],
        ticks = 3\<rparr>)"
    by code_simp
  have legacy: "createBackup demoConfig demoPlatform ''legacy''
       \<lparr>files = Dir 4096 0 [(''blog'', Dir 4096 8640000000 [(demoArtifact, File 2048 8640000000)])],
        execLog = [''docker exec pg-main pg_dump -U postgres blog_db | gzip > backups/blog/backup-2026-01-01T02-00-00-000Z.sql.gz''],
        ticks = 3\<rparr> =
      (Inl (UnsupportedEngineKind ''oracle''),
       \<lparr>files = Dir 4096 0 [(''blog'', Dir 4096 8640000000 [(demoArtifact, File 2048 8640000000)]),
                            (''legacy'', Dir 4096 8640000003 [])],
        execLog = [''docker exec pg-main pg_dump -U postgres blog_db | gzip > backups/blog/backup-2026-01-01T02-00-00-000Z.sql.gz''],
        ticks = 4\<rparr>)"
    by code_simp
  have apps: "applications demoConfig = [appShop, appBlog, appLegacy]"
    by (simp add: demoConfig_def)
  have db: "database appShop = None" "database appBlog \<noteq> None" "database appLegacy \<noteq> None"
    "name appBlog = ''blog''" "name appLegacy = ''legacy''"
    by (simp_all add: appShop_def appBlog_def appLegacy_def)
  note step = createAllBackups_entries[of demoConfig demoPlatform demoWorld, THEN conjunct2, THEN conjunct2, rule_format]
  let ?w3 = "\<lparr>files = Dir 4096 0 [(''blog'', Dir 4096 8640000000 [(demoArtifact, File 2048 8640000000)])],
        execLog = [''docker exec pg-main pg_dump -U postgres blog_db | gzip > backups/blog/backup-2026-01-01T02-00-00-000Z.sql.gz''],
        ticks = 3\<rparr>"
  let ?r = "\<lparr>r_application = ''blog'',
                 r_file = ''backups/blog/backup-2026-01-01T02-00-00-000Z.sql.gz'',
                 r_size = 2048, r_timestamp = ''2026-01-01T02:00:00.000Z''\<rparr>"
  have s0: "createAllLoop demoConfig demoPlatform [appShop, appBlog, appLegacy] demoWorld []
              = createAllLoop demoConfig demoPlatform [appBlog, appLegacy] demoWorld []"
    using db(1) by simp
  have s1: "createAllLoop demoConfig demoPlatform [appBlog, appLegacy] demoWorld []
              = createAllLoop demoConfig demoPlatform [appLegacy] ?w3 [Succeeded ?r]"
    unfolding step[OF db(2)] db(4) blog by simp
  have s2: "createAllLoop demoConfig demoPlatform [appLegacy] ?w3 [Succeeded ?r]
              = createAllLoop demoConfig demoPlatform []
                  \<lparr>files = Dir 4096 0 [(''blog'', Dir 4096 8640000000 [(demoArtifact, File 2048 8640000000)]),
                            (''legacy'', Dir 4096 8640000003 [])],
                   execLog = [''docker exec pg-main pg_dump -U postgres blog_db | gzip > backups/blog/backup-2026-01-01T02-00-00-000Z.sql.gz''],
                   ticks = 4\<rparr>
                  [Succeeded ?r, Failed ''legacy'' ''Unsupported database type: oracle'']"
    unfolding step[OF db(3)] db(5) legacy by simp
  have run: "createAllBackups demoConfig demoPlatform demoWorld =
     ([Succeeded ?r, Failed ''legacy'' ''Unsupported database type: oracle''],
      \<lparr>files = Dir 4096 0 [(''blog'', Dir 4096 8640000000 [(demoArtifact, File 2048 8640000000)]),
                            (''legacy'', Dir 4096 8640000003 [])],
        execLog = [''docker exec pg-main pg_dump -U postgres blog_db | gzip > backups/blog/backup-2026-01-01T02-00-00-000Z.sql.gz''],
        ticks = 4\<rparr>)"
    unfolding createAllBackups_def apps s0 s1 s2 by simp
  show ?thesis
    unfolding run using createAllBackups_entries[of demoConfig demoPlatform demoWorld]
    by (simp add: apps db)
qed

text \<open>
  C4 (as amended). On a roster in which every database descriptor carries a cadence
  expression, init creates, in roster order, one job for every application whose
  descriptor's cadence expression passes the validation, with that expression;
  applications without a database descriptor and applications whose cadence expression
  is rejected get no job.
\<close>

theorem init_jobs:
  assumes "\<forall>a \<in> set (applications cfg). \<forall>d. database a = Some d
             \<longrightarrow> (\<exists>s. backupSchedule d = Some s \<and> s \<noteq> [])"
  shows "init cfg pf js = Inr (js @ map backupJob (filter (validCadence pf) (applications cfg)))"
  unfolding init_def using assms by (rule initLoop_jobs)

theorem init_jobs_witness:
  "init demoConfig demoPlatform [] =
     Inr [\<lparr>j_application = ''blog'', j_type = ''backup'', j_schedule = ''0 2 * * *''\<rparr>]"
proof -
  have h: "\<forall>a \<in> set (applications demoConfig). \<forall>d. database a = Some d
             \<longrightarrow> (\<exists>s. backupSchedule d = Some s \<and> s \<noteq> [])"
    by (simp add: demoConfig_def appShop_def appBlog_def appLegacy_def pgDb_def oracleDb_def)
  have v: "filter (validCadence demoPlatform) (applications demoConfig) = [appBlog]"
    by (simp add: demoConfig_def appShop_def appBlog_def appLegacy_def pgDb_def oracleDb_def
          validCadence_def cadence_def demoPlatform_def)
  have j: "backupJob appBlog
             = \<lparr>j_application = ''blog'', j_type = ''backup'', j_schedule = ''0 2 * * *''\<rparr>"
    by (simp add: backupJob_def cadence_def appBlog_def pgDb_def)
  show ?thesis using init_jobs[OF h, of demoPlatform "[]"] by (simp add: v j)
qed

text \<open>
  The claim as stated fails on two rosters: an application whose descriptor omits the
  cadence expression is not scheduled at all (the default cadence, which the validation
  accepts, is never used), and an application whose cadence expression is rejected is
  not scheduled either.
\<close>

theorem init_jobs_counterexample:
  "init plainConfig demoPlatform [] = Inr []
   \<and> database appPlain \<noteq> None
   \<and> cronValidate demoPlatform (backup_defaultSchedule plainConfig)
   \<and> init legacyConfig demoPlatform [] = Inr []
   \<and> database appLegacy \<noteq> None"
  by (simp add: init_def plainConfig_def legacyConfig_def demoConfig_def appPlain_def
        appLegacy_def pgDb_def oracleDb_def demoPlatform_def scheduleBackup_def)

text \<open>
  C5. findApplicationForContainer strips the leading slash of the raw name and returns
  the name of the first application, in roster order, that matches it: one of its
  fragments is a substring of the name or the name is a substring of the fragment, or
  its database container name is a substring of the name. When no application matches,
  the container's application is "unknown"; when one does (and has a name), it is the
  first such application, also where fragments overlap.
\<close>

theorem container_attribution:
  "findApplicationForContainer apps raw
     = map_option name (find (spec_matches (cleanName raw)) apps)
   \<and> (find (spec_matches (cleanName raw)) apps = None
        \<longrightarrow> resolvedApplication apps raw = ''unknown'')
   \<and> (\<forall>a. find (spec_matches (cleanName raw)) apps = Some a \<and> name a \<noteq> []
        \<longrightarrow> resolvedApplication apps raw = name a)
   \<and> cleanName (CHR ''/'' # n) = n"
  by (auto simp: findApplicationForContainer_def resolvedApplication_def scan_find cleanName_leading)

theorem container_attribution_witness:
  "find (spec_matches (cleanName ''/web-api-1'')) [appShop, appBlog] = Some appShop
   \<and> resolvedApplication [appShop, appBlog] ''/web-api-1'' = ''shop''
   \<and> find (spec_matches (cleanName ''/pg-main-replica'')) [appShop, appBlog] = Some appBlog
   \<and> resolvedApplication [appShop, appBlog] ''/pg-main-replica'' = ''blog''
   \<and> find (spec_matches (cleanName ''/redis'')) [appShop, appBlog] = None
   \<and> resolvedApplication [appShop, appBlog] ''/redis'' = ''unknown''"
proof -
  have a: "find (spec_matches (cleanName ''/web-api-1'')) [appShop, appBlog] = Some appShop"
    by code_simp
  have b: "find (spec_matches (cleanName ''/pg-main-replica'')) [appShop, appBlog] = Some appBlog"
    by code_simp
  have c: "find (spec_matches (cleanName ''/redis'')) [appShop, appBlog] = None"
    by code_simp
  have n: "name appShop = ''shop''" "name appBlog = ''blog''"
    by (simp_all add: appShop_def appBlog_def)
  note hit = container_attribution[THEN conjunct2, THEN conjunct2, THEN conjunct1, rule_format]
  note miss = container_attribution[THEN conjunct2, THEN conjunct1, rule_format]
  have "resolvedApplication [appShop, appBlog] ''/web-api-1'' = name appShop"
    by (rule hit) (rule conjI, rule a, simp add: n)
  then have 1: "resolvedApplication [appShop, appBlog] ''/web-api-1'' = ''shop''"
    by (simp only: n)
  have "resolvedApplication [appShop, appBlog] ''/pg-main-replica'' = name appBlog"
    by (rule hit) (rule conjI, rule b, simp add: n)
  then have 2: "resolvedApplication [appShop, appBlog] ''/pg-main-replica'' = ''blog''"
    by (simp only: n)
  have 3: "resolvedApplication [appShop, appBlog] ''/redis'' = ''unknown''"
    by (rule miss) (rule c)
  show ?thesis using a b c 1 2 3 by (intro conjI)
qed

text \<open>
  C6. For each supported engine kind the backup and the restore command contain the
  engine's tool name, the container name and the database name verbatim; the postgresql
  commands also contain the username and do not depend on the password. For an
  unsupported engine kind both switches fail with UnsupportedEngineKind, and createBackup
  and restoreBackup fail without any command having been handed to the process executor.
\<close>

theorem command_builder:
  "(toLowerCase (dbtype d) = ''postgresql'' \<longrightarrow>
      (\<exists>f cmd. backupSwitch d ts render = Inr (f, cmd) \<and> mentions ''pg_dump'' d cmd
          \<and> sublist (username d) cmd
          \<and> backupSwitch (d\<lparr>password := p\<rparr>) ts render = Inr (f, cmd))
      \<and> (\<exists>cmd. restoreSwitch d bp = Inr cmd \<and> mentions ''psql'' d cmd
          \<and> sublist (username d) cmd
          \<and> restoreSwitch (d\<lparr>password := p\<rparr>) bp = Inr cmd))
   \<and> (toLowerCase (dbtype d) = ''mysql'' \<longrightarrow>
      (\<exists>f cmd. backupSwitch d ts render = Inr (f, cmd) \<and> mentions ''mysqldump'' d cmd)
      \<and> (\<exists>cmd. restoreSwitch d bp = Inr cmd \<and> mentions ''mysql'' d cmd))
   \<and> (toLowerCase (dbtype d) = ''mongodb'' \<longrightarrow>
      (\<exists>f cmd. backupSwitch d ts render = Inr (f, cmd) \<and> mentions ''mongodump'' d cmd)
      \<and> (\<exists>cmd. restoreSwitch d bp = Inr cmd \<and> mentions ''mongorestore'' d cmd))
   \<and> (\<not> supported d \<longrightarrow>
      backupSwitch d ts render = Inl (UnsupportedEngineKind (dbtype d))
      \<and> restoreSwitch d bp = Inl (UnsupportedEngineKind (dbtype d))
      \<and> (\<forall>(cfg::config) pf appName (app::application) fn w.
            find (\<lambda>a. name a = appName) (applications cfg) = Some app \<and> database app = Some d
            \<longrightarrow> execLog (snd (createBackup cfg pf appName w)) = execLog w
              \<and> (\<exists>e. fst (createBackup cfg pf appName w) = Inl e)
              \<and> (mkdir_p (dirSize pf) (clock pf (ticks w)) (path_join [] appName) (files w) \<noteq> None
                   \<longrightarrow> fst (createBackup cfg pf appName w) = Inl (UnsupportedEngineKind (dbtype d)))
              \<and> snd (restoreBackup cfg pf appName fn w) = w
              \<and> (\<exists>e. fst (restoreBackup cfg pf appName fn w) = Inl e)
              \<and> (lookup (files w) (path_join (path_join [] appName) fn) \<noteq> None
                   \<longrightarrow> fst (restoreBackup cfg pf appName fn w) = Inl (UnsupportedEngineKind (dbtype d)))))"
proof (intro conjI impI allI)
  assume "toLowerCase (dbtype d) = ''postgresql''"
  then show "\<exists>f cmd. backupSwitch d ts render = Inr (f, cmd) \<and> mentions ''pg_dump'' d cmd
          \<and> sublist (username d) cmd
          \<and> backupSwitch (d\<lparr>password := p\<rparr>) ts render = Inr (f, cmd)"
    by (rule backup_pg)
next
  assume "toLowerCase (dbtype d) = ''postgresql''"
  then show "\<exists>cmd. restoreSwitch d bp = Inr cmd \<and> mentions ''psql'' d cmd
          \<and> sublist (username d) cmd
          \<and> restoreSwitch (d\<lparr>password := p\<rparr>) bp = Inr cmd"
    by (rule restore_pg)
next
  assume "toLowerCase (dbtype d) = ''mysql''"
  then show "\<exists>f cmd. backupSwitch d ts render = Inr (f, cmd) \<and> mentions ''mysqldump'' d cmd"
    by (rule backup_mysql)
next
  assume "toLowerCase (dbtype d) = ''mysql''"
  then show "\<exists>cmd. restoreSwitch d bp = Inr cmd \<and> mentions ''mysql'' d cmd"
    by (rule restore_mysql)
next
  assume "toLowerCase (dbtype d) = ''mongodb''"
  then show "\<exists>f cmd. backupSwitch d ts render = Inr (f, cmd) \<and> mentions ''mongodump'' d cmd"
    by (rule backup_mongo)
next
  assume "toLowerCase (dbtype d) = ''mongodb''"
  then show "\<exists>cmd. restoreSwitch d bp = Inr cmd \<and> mentions ''mongorestore'' d cmd"
    by (rule restore_mongo)
next
  assume "\<not> supported d"
  then show "backupSwitch d ts render = Inl (UnsupportedEngineKind (dbtype d))"
    by (rule unsupported_switch)
next
  assume "\<not> supported d"
  then show "restoreSwitch d bp = Inl (UnsupportedEngineKind (dbtype d))"
    by (rule unsupported_switch)
next
  fix cfg :: config and pf appName and app :: application and fn w
  assume u: "\<not> supported d"
    and h: "find (\<lambda>a. name a = appName) (applications cfg) = Some app \<and> database app = Some d"
  from h have f: "find (\<lambda>a. name a = appName) (applications cfg) = Some app"
    and db: "database app = Some d" by simp_all
  show "execLog (snd (createBackup cfg pf appName w)) = execLog w"
    by (rule unsupported_createBackup(1)[OF f db u])
  show "\<exists>e. fst (createBackup cfg pf appName w) = Inl e"
    by (rule unsupported_createBackup(2)[OF f db u])
  show "snd (restoreBackup cfg pf appName fn w) = w"
    by (rule unsupported_restoreBackup(1)[OF f db u])
  show "\<exists>e. fst (restoreBackup cfg pf appName fn w) = Inl e"
    by (rule unsupported_restoreBackup(2)[OF f db u])
  {
    assume "mkdir_p (dirSize pf) (clock pf (ticks w)) (path_join [] appName) (files w) \<noteq> None"
    then show "fst (createBackup cfg pf appName w) = Inl (UnsupportedEngineKind (dbtype d))"
      by (rule unsupported_createBackup(3)[OF f db u])
  }
  {
    assume "lookup (files w) (path_join (path_join [] appName) fn) \<noteq> None"
    then show "fst (restoreBackup cfg pf appName fn w) = Inl (UnsupportedEngineKind (dbtype d))"
      by (rule unsupported_restoreBackup(3)[OF f db u])
  }
qed

theorem command_builder_witness:
  "toLowerCase (dbtype pgDb) = ''postgresql''
   \<and> backupSwitch pgDb ''T'' id =
       Inr (''backup-T.sql.gz'',
            ''docker exec pg-main pg_dump -U postgres blog_db | gzip > backup-T.sql.gz'')
   \<and> mentions ''pg_dump'' pgDb
        ''docker exec pg-main pg_dump -U postgres blog_db | gzip > backup-T.sql.gz''
   \<and> \<not> supported oracleDb
   \<and> find (\<lambda>a. name a = ''legacy'') (applications demoConfig) = Some appLegacy
   \<and> database appLegacy = Some oracleDb
   \<and> fst (createBackup demoConfig demoPlatform ''legacy'' demoWorld)
       = Inl (UnsupportedEngineKind ''oracle'')
   \<and> execLog (snd (createBackup demoConfig demoPlatform ''legacy'' demoWorld)) = []"
proof -
  let ?cmd = "''docker exec pg-main pg_dump -U postgres blog_db | gzip > backup-T.sql.gz''"
  have a: "toLowerCase (dbtype pgDb) = ''postgresql''" by code_simp
  have b: "backupSwitch pgDb ''T'' id = Inr (''backup-T.sql.gz'', ?cmd)" by code_simp
  from command_builder[of pgDb "''T''" id "''other''" "''x''"] a
  obtain f cmd where "backupSwitch pgDb ''T'' id = Inr (f, cmd)" and m: "mentions ''pg_dump'' pgDb cmd"
    by blast
  with b have c: "mentions ''pg_dump'' pgDb ?cmd" by simp
  have u: "\<not> supported oracleDb" by code_simp
  have f: "find (\<lambda>a. name a = ''legacy'') (applications demoConfig) = Some appLegacy"
    by code_simp
  have db: "database appLegacy = Some oracleDb" by (simp add: appLegacy_def)
  have mk: "mkdir_p (dirSize demoPlatform) (clock demoPlatform (ticks demoWorld))
              (path_join [] ''legacy'') (files demoWorld) \<noteq> None"
    by code_simp
  have ty: "dbtype oracleDb = ''oracle''" by (simp add: oracleDb_def)
  have lg: "execLog demoWorld = []" by (simp add: demoWorld_def)
  from command_builder[of oracleDb "''T''" id "''x''" "''other''"] u
  have all: "\<forall>(cfg::config) pf appName (app::application) fn w.
            find (\<lambda>a. name a = appName) (applications cfg) = Some app \<and> database app = Some oracleDb
            \<longrightarrow> execLog (snd (createBackup cfg pf appName w)) = execLog w
              \<and> (mkdir_p (dirSize pf) (clock pf (ticks w)) (path_join [] appName) (files w) \<noteq> None
                   \<longrightarrow> fst (createBackup cfg pf appName w) = Inl (UnsupportedEngineKind (dbtype oracleDb)))"
    by blast
  from all[rule_format, of "''legacy''" demoConfig appLegacy demoPlatform demoWorld] f db mk
  have d: "execLog (snd (createBackup demoConfig demoPlatform ''legacy'' demoWorld)) = execLog demoWorld"
    and e: "fst (createBackup demoConfig demoPlatform ''legacy'' demoWorld)
              = Inl (UnsupportedEngineKind (dbtype oracleDb))"
    by blast+
  show ?thesis using a b c u f db d e ty lg by simp
qed

text \<open>
  C7. With a positive system delta, cpuPercent is the cpu delta divided by the system
  delta, times the number of online CPUs, times 100; with a zero or negative system
  delta (or one that is not a number) it is exactly 0. memoryPercent is usage divided
  by limit times 100 for a positive limit, and 0 otherwise.
\<close>

theorem cpu_memory_percent:
  "(0 < cs - ps \<longrightarrow>
      cpuPercent \<lparr>cpu_total_usage = Num ct, precpu_total_usage = Num pt,
                  cpu_system_cpu_usage = Num cs, precpu_system_cpu_usage = Num ps,
                  online_cpus = Num n, memory_usage = mu, memory_limit = ml\<rparr>
        = Num ((ct - pt) / (cs - ps) * n * 100))
   \<and> (cs - ps \<le> 0 \<longrightarrow>
      cpuPercent \<lparr>cpu_total_usage = a, precpu_total_usage = b,
                  cpu_system_cpu_usage = Num cs, precpu_system_cpu_usage = Num ps,
                  online_cpus = c, memory_usage = mu, memory_limit = ml\<rparr> = Num 0)
   \<and> (\<not> js_positive (js_sub (cpu_system_cpu_usage st) (precpu_system_cpu_usage st))
        \<longrightarrow> cpuPercent st = Num 0)
   \<and> (0 < l \<longrightarrow> memoryPercent (st\<lparr>memory_usage := Num u, memory_limit := Num l\<rparr>)
                   = Num (u / l * 100))
   \<and> (\<not> js_positive (js_or_zero (memory_limit st)) \<longrightarrow> memoryPercent st = Num 0)"
  by (simp add: cpuPercent_def memoryPercent_def Let_def)

theorem cpu_memory_percent_witness:
  "(0::rat) < 1200 - 1000
   \<and> cpuPercent sampleStats = Num 200
   \<and> memoryPercent sampleStats = Num 25
   \<and> cpuPercent (sampleStats\<lparr>cpu_system_cpu_usage := Num 1000\<rparr>) = Num 0
   \<and> cpuPercent (sampleStats\<lparr>cpu_system_cpu_usage := NaN\<rparr>) = Num 0
   \<and> memoryPercent (sampleStats\<lparr>memory_limit := Num 0\<rparr>) = Num 0"
proof -
  have h: "(0::rat) < 1200 - 1000" by simp
  have h0: "(1000::rat) - 1000 \<le> 0" by simp
  have l: "(0::rat) < 200" by simp
  note t = cpu_memory_percent[of 1200 1000 200 100 4 "Num 50" "Num 200"]
  from t[of "Num 200" "Num 100" "Num 4" sampleStats 200 50] h l
  have 1: "cpuPercent sampleStats = Num 200" and 2: "memoryPercent sampleStats = Num 25"
    by (simp_all add: sampleStats_def)
  from cpu_memory_percent[of 1000 1000 200 100 4 "Num 50" "Num 200" "Num 200" "Num 100" "Num 4"] h0
  have 3: "cpuPercent (sampleStats\<lparr>cpu_system_cpu_usage := Num 1000\<rparr>) = Num 0"
    by (simp add: sampleStats_def)
  from cpu_memory_percent[where st = "sampleStats\<lparr>cpu_system_cpu_usage := NaN\<rparr>"]
  have 4: "cpuPercent (sampleStats\<lparr>cpu_system_cpu_usage := NaN\<rparr>) = Num 0"
    by (simp add: sampleStats_def)
  from cpu_memory_percent[where st = "sampleStats\<lparr>memory_limit := Num 0\<rparr>"]
  have 5: "memoryPercent (sampleStats\<lparr>memory_limit := Num 0\<rparr>) = Num 0"
    by (simp add: sampleStats_def)
  show ?thesis using h 1 2 3 4 5 by simp
qed

text \<open>
  C8 (as amended). For an interface whose name is no property name of
  \<^verbatim>\<open>Object.prototype\<close>, observed by a monitor whose store of previous samples still has
  its original prototype: the first observation reports the rates 0 and stores the byte
  counters and the time; a later observation, at a time different from the stored one,
  reports for each direction \<^verbatim>\<open>Math.round\<close> of the double-precision quotient of the
  byte delta by the elapsed seconds, which is an integer within a half (and a relative
  error of 2 to the power -51) of the exact quotient when the deltas are at most 2 to the power 53; every
  observation stores the current counters with a fresh reading of the clock, and a poll
  reads the clock again for the report's timestamp and for its cache.
\<close>

theorem network_rates:
  assumes "iface i \<notin> set objectPrototypeNames" and "prototype m = None"
  shows
  "(previousStats m (iface i) = None \<longrightarrow>
      rxSpeed (fst (observe pf m i)) = Num 0 \<and> txSpeed (fst (observe pf m i)) = Num 0
      \<and> previousStats (snd (observe pf m i)) (iface i)
           = Some \<lparr>p_rx_bytes = rx_bytes i, p_tx_bytes = tx_bytes i,
                   p_timestamp = clock pf (m_ticks m)\<rparr>
      \<and> m_ticks (snd (observe pf m i)) = Suc (m_ticks m))
   \<and> (\<forall>p. previousStats m (iface i) = Some p \<and> clock pf (m_ticks m) \<noteq> p_timestamp p \<longrightarrow>
      rxSpeed (fst (observe pf m i))
        = js_round (d_div (d_sub (Num (of_int (rx_bytes i))) (Num (of_int (p_rx_bytes p))))
                          (d_div (d_sub (Num (of_int (clock pf (m_ticks m))))
                                        (Num (of_int (p_timestamp p))))
                                 (Num 1000)))
      \<and> txSpeed (fst (observe pf m i))
        = js_round (d_div (d_sub (Num (of_int (tx_bytes i))) (Num (of_int (p_tx_bytes p))))
                          (d_div (d_sub (Num (of_int (clock pf (m_ticks m))))
                                        (Num (of_int (p_timestamp p))))
                                 (Num 1000)))
      \<and> previousStats (snd (observe pf m i)) (iface i)
           = Some \<lparr>p_rx_bytes = rx_bytes i, p_tx_bytes = tx_bytes i,
                   p_timestamp = clock pf (Suc (m_ticks m))\<rparr>
      \<and> m_ticks (snd (observe pf m i)) = Suc (Suc (m_ticks m)))
   \<and> (\<forall>p. previousStats m (iface i) = Some p \<and> clock pf (m_ticks m) \<noteq> p_timestamp p
          \<and> \<bar>clock pf (m_ticks m) - p_timestamp p\<bar> \<le> 2 ^ 53
          \<and> \<bar>rx_bytes i - p_rx_bytes p\<bar> \<le> 2 ^ 53 \<and> \<bar>tx_bytes i - p_tx_bytes p\<bar> \<le> 2 ^ 53 \<longrightarrow>
      (\<exists>r. rxSpeed (fst (observe pf m i)) = Num (of_int r)
          \<and> \<bar>of_int r - rat_of_int (rx_bytes i - p_rx_bytes p)
                          / (of_int (clock pf (m_ticks m) - p_timestamp p) / 1000)\<bar>
              \<le> 1 / 2 + \<bar>rat_of_int (rx_bytes i - p_rx_bytes p)
                            / (of_int (clock pf (m_ticks m) - p_timestamp p) / 1000)\<bar> / 2 ^ 51)
      \<and> (\<exists>r. txSpeed (fst (observe pf m i)) = Num (of_int r)
          \<and> \<bar>of_int r - rat_of_int (tx_bytes i - p_tx_bytes p)
                          / (of_int (clock pf (m_ticks m) - p_timestamp p) / 1000)\<bar>
              \<le> 1 / 2 + \<bar>rat_of_int (tx_bytes i - p_tx_bytes p)
                            / (of_int (clock pf (m_ticks m) - p_timestamp p) / 1000)\<bar> / 2 ^ 51))
   \<and> previousStats (snd (observe pf m i)) (iface i)
        = Some \<lparr>p_rx_bytes = rx_bytes i, p_tx_bytes = tx_bytes i,
                p_timestamp = clock pf (m_ticks (snd (observe pf m i)) - 1)\<rparr>
   \<and> prototype (snd (observe pf m i)) = None
   \<and> interfaces (fst (getNetworkStats pf m [i] conns)) = [fst (observe pf m i)]
   \<and> previousStats (snd (getNetworkStats pf m [i] conns)) = previousStats (snd (observe pf m i))
   \<and> prototype (snd (getNetworkStats pf m [i] conns)) = None
   \<and> cachedData (snd (getNetworkStats pf m [i] conns))
        = Some (fst (getNetworkStats pf m [i] conns), clock pf (Suc (m_ticks (snd (observe pf m i)))))
   \<and> m_ticks (snd (getNetworkStats pf m [i] conns)) = Suc (Suc (m_ticks (snd (observe pf m i))))"
proof -
  note np = not_proto[OF assms(1)]
  note rd = not_inherited[OF assms]
  show ?thesis
  proof (cases "previousStats m (iface i)")
    case None
    then show ?thesis
      using rd np assms(2)
      by (simp add: observe_def getNetworkStats_def writePrevious_def Let_def floor_half
               split: prod.splits)
  next
    case (Some p)
    have rx: "rxSpeed (fst (observe pf m i))
        = js_round (d_div (d_sub (Num (of_int (rx_bytes i))) (Num (of_int (p_rx_bytes p))))
                          (d_div (d_sub (Num (of_int (clock pf (m_ticks m))))
                                        (Num (of_int (p_timestamp p))))
                                 (Num 1000)))"
      and tx: "txSpeed (fst (observe pf m i))
        = js_round (d_div (d_sub (Num (of_int (tx_bytes i))) (Num (of_int (p_tx_bytes p))))
                          (d_div (d_sub (Num (of_int (clock pf (m_ticks m))))
                                        (Num (of_int (p_timestamp p))))
                                 (Num 1000)))"
      using Some rd by (simp_all add: observe_Sample)
    have near: "(\<exists>r. rxSpeed (fst (observe pf m i)) = Num (of_int r)
          \<and> \<bar>of_int r - rat_of_int (rx_bytes i - p_rx_bytes p)
                          / (of_int (clock pf (m_ticks m) - p_timestamp p) / 1000)\<bar>
              \<le> 1 / 2 + \<bar>rat_of_int (rx_bytes i - p_rx_bytes p)
                            / (of_int (clock pf (m_ticks m) - p_timestamp p) / 1000)\<bar> / 2 ^ 51)
      \<and> (\<exists>r. txSpeed (fst (observe pf m i)) = Num (of_int r)
          \<and> \<bar>of_int r - rat_of_int (tx_bytes i - p_tx_bytes p)
                          / (of_int (clock pf (m_ticks m) - p_timestamp p) / 1000)\<bar>
              \<le> 1 / 2 + \<bar>rat_of_int (tx_bytes i - p_tx_bytes p)
                            / (of_int (clock pf (m_ticks m) - p_timestamp p) / 1000)\<bar> / 2 ^ 51)"
      if h: "clock pf (m_ticks m) \<noteq> p_timestamp p"
        "\<bar>clock pf (m_ticks m) - p_timestamp p\<bar> \<le> 2 ^ 53"
        "\<bar>rx_bytes i - p_rx_bytes p\<bar> \<le> 2 ^ 53" "\<bar>tx_bytes i - p_tx_bytes p\<bar> \<le> 2 ^ 53"
    proof -
      have ms: "clock pf (m_ticks m) - p_timestamp p \<noteq> 0" using h(1) by simp
      show ?thesis
        unfolding rx tx d_sub_int[OF h(2)] d_sub_int[OF h(3)] d_sub_int[OF h(4)]
        using rate_near[OF ms h(2) h(3)] rate_near[OF ms h(2) h(4)] by (rule conjI)
    qed
    have rest: "previousStats (snd (observe pf m i)) (iface i)
           = Some \<lparr>p_rx_bytes = rx_bytes i, p_tx_bytes = tx_bytes i,
                   p_timestamp = clock pf (Suc (m_ticks m))\<rparr>"
      "m_ticks (snd (observe pf m i)) = Suc (Suc (m_ticks m))"
      "prototype (snd (observe pf m i)) = None"
      "interfaces (fst (getNetworkStats pf m [i] conns)) = [fst (observe pf m i)]"
      "previousStats (snd (getNetworkStats pf m [i] conns)) = previousStats (snd (observe pf m i))"
      "prototype (snd (getNetworkStats pf m [i] conns)) = None"
      "cachedData (snd (getNetworkStats pf m [i] conns))
        = Some (fst (getNetworkStats pf m [i] conns), clock pf (Suc (m_ticks (snd (observe pf m i)))))"
      "m_ticks (snd (getNetworkStats pf m [i] conns)) = Suc (Suc (m_ticks (snd (observe pf m i))))"
      using Some rd np assms(2)
      by (simp_all add: observe_def getNetworkStats_def writePrevious_def Let_def
               split: prod.splits)
    show ?thesis
      unfolding Some using rx tx near rest by simp
  qed
qed

theorem network_rates_witness:
  "''eth0'' \<notin> set objectPrototypeNames
   \<and> prototype freshMonitor = None
   \<and> previousStats freshMonitor ''eth0'' = None
   \<and> rxSpeed (fst (observe (clockEvery 1000) freshMonitor (eth0 5000))) = Num 0
   \<and> previousStats (snd (getNetworkStats (clockEvery 1000) freshMonitor [eth0 5000] [])) ''eth0''
       = Some \<lparr>p_rx_bytes = 5000, p_tx_bytes = 5000, p_timestamp = 0\<rparr>
   \<and> m_ticks (snd (getNetworkStats (clockEvery 1000) freshMonitor [eth0 5000] [])) = 3
   \<and> rxSpeed (fst (observe (clockEvery 1000)
                      (snd (getNetworkStats (clockEvery 1000) freshMonitor [eth0 5000] []))
                      (eth0 6500))) = Num 500
   \<and> rxSpeed (fst (observe (clockEvery 2000)
                      (snd (getNetworkStats (clockEvery 2000) freshMonitor [eth0 5000] []))
                      (eth0 6500))) = Num 250
   \<and> previousStats seenMonitor ''eth0''
       = Some \<lparr>p_rx_bytes = 5000, p_tx_bytes = 5000, p_timestamp = 0\<rparr>
   \<and> clock (clockEvery 2000) (m_ticks seenMonitor) = 2000
   \<and> rxSpeed (fst (observe (clockEvery 2000) seenMonitor (eth0 6000))) = Num 500
   \<and> clock (clockEvery 272) (m_ticks seenMonitor) = 272
   \<and> rxSpeed (fst (observe (clockEvery 272) seenMonitor (eth0 5017))) = Num 62
   \<and> \<bar>62 - (17::rat) / (272 / 1000)\<bar> \<le> 1 / 2 + \<bar>(17::rat) / (272 / 1000)\<bar> / 2 ^ 51"
proof -
  have n: "''eth0'' \<notin> set objectPrototypeNames" by (simp add: objectPrototypeNames_def)
  have i: "iface (eth0 k) = ''eth0''" "rx_bytes (eth0 k) = k" "tx_bytes (eth0 k) = k" for k
    by (simp_all add: eth0_def)
  have f: "prototype freshMonitor = None" "previousStats freshMonitor ''eth0'' = None"
    "m_ticks freshMonitor = 0"
    by (simp_all add: freshMonitor_def)
  have s: "prototype seenMonitor = None"
    "previousStats seenMonitor ''eth0''
       = Some \<lparr>p_rx_bytes = 5000, p_tx_bytes = 5000, p_timestamp = 0\<rparr>"
    "m_ticks seenMonitor = 1"
    by (simp_all add: seenMonitor_def)
  have c: "clock (clockEvery ms) k = ms * int k" for ms k
    by (simp add: clockEvery_def)
  have first: "rxSpeed (fst (observe (clockEvery ms) freshMonitor (eth0 5000))) = Num 0
      \<and> previousStats (snd (getNetworkStats (clockEvery ms) freshMonitor [eth0 5000] [])) ''eth0''
           = Some \<lparr>p_rx_bytes = 5000, p_tx_bytes = 5000, p_timestamp = 0\<rparr>
      \<and> prototype (snd (getNetworkStats (clockEvery ms) freshMonitor [eth0 5000] [])) = None
      \<and> m_ticks (snd (getNetworkStats (clockEvery ms) freshMonitor [eth0 5000] [])) = 3" for ms
    using network_rates[of "eth0 5000" freshMonitor "clockEvery ms" "[]"] n f
    by (simp add: i c)
  have second: "rxSpeed (fst (observe (clockEvery ms)
                      (snd (getNetworkStats (clockEvery ms) freshMonitor [eth0 5000] []))
                      (eth0 6500)))
        = js_round (d_div (d_sub (Num 6500) (Num 5000))
                 (d_div (d_sub (Num (of_int (ms * 3))) (Num 0)) (Num 1000)))"
    if "ms \<noteq> 0" for ms
  proof -
    let ?M = "snd (getNetworkStats (clockEvery ms) freshMonitor [eth0 5000] [])"
    have p: "prototype ?M = None" using first by simp
    have q: "previousStats ?M (iface (eth0 6500))
               = Some \<lparr>p_rx_bytes = 5000, p_tx_bytes = 5000, p_timestamp = 0\<rparr>"
      using first by (simp add: i)
    have t: "m_ticks ?M = 3" using first by simp
    have ne: "clock (clockEvery ms) (m_ticks ?M)
                \<noteq> p_timestamp \<lparr>p_rx_bytes = 5000, p_tx_bytes = 5000, p_timestamp = 0\<rparr>"
      using that by (simp add: t c)
    have n': "iface (eth0 6500) \<notin> set objectPrototypeNames" using n by (simp add: i)
    note th = network_rates[OF n' p, of "clockEvery ms" "[]", THEN conjunct2, THEN conjunct1,
                rule_format, OF conjI[OF q ne], THEN conjunct1]
    show ?thesis using th by (simp add: i c t)
  qed
  have n': "iface (eth0 5017) \<notin> set objectPrototypeNames" using n by (simp add: i)
  have q: "previousStats seenMonitor (iface (eth0 5017))
               = Some \<lparr>p_rx_bytes = 5000, p_tx_bytes = 5000, p_timestamp = 0\<rparr>"
    using s by (simp add: i)
  have ne: "clock (clockEvery 272) (m_ticks seenMonitor)
                \<noteq> p_timestamp \<lparr>p_rx_bytes = 5000, p_tx_bytes = 5000, p_timestamp = 0\<rparr>"
    by (simp add: s c)
  have spec: "rxSpeed (fst (observe (clockEvery 2000) seenMonitor (eth0 6000))) = Num 500"
  proof -
    have n2: "iface (eth0 6000) \<notin> set objectPrototypeNames" using n by (simp add: i)
    have q2: "previousStats seenMonitor (iface (eth0 6000))
               = Some \<lparr>p_rx_bytes = 5000, p_tx_bytes = 5000, p_timestamp = 0\<rparr>"
      using s by (simp add: i)
    have ne2: "clock (clockEvery 2000) (m_ticks seenMonitor)
                \<noteq> p_timestamp \<lparr>p_rx_bytes = 5000, p_tx_bytes = 5000, p_timestamp = 0\<rparr>"
      by (simp add: s c)
    note th = network_rates[OF n2 s(1), of "clockEvery 2000" "[]", THEN conjunct2,
                THEN conjunct1, rule_format, OF conjI[OF q2 ne2], THEN conjunct1]
    show ?thesis using th rate_spec by (simp add: i c s)
  qed
  have third: "rxSpeed (fst (observe (clockEvery 272) seenMonitor (eth0 5017))) = Num 62"
  proof -
    note th = network_rates[OF n' s(1), of "clockEvery 272" "[]", THEN conjunct2, THEN conjunct1,
                rule_format, OF conjI[OF q ne], THEN conjunct1]
    show ?thesis using th rate_62 by (simp add: i c s)
  qed
  have bound: "\<bar>62 - (17::rat) / (272 / 1000)\<bar> \<le> 1 / 2 + \<bar>(17::rat) / (272 / 1000)\<bar> / 2 ^ 51"
  proof -
    have b: "\<bar>clock (clockEvery 272) (m_ticks seenMonitor)
               - p_timestamp \<lparr>p_rx_bytes = 5000, p_tx_bytes = 5000, p_timestamp = 0\<rparr>\<bar> \<le> 2 ^ 53"
      "\<bar>rx_bytes (eth0 5017)
               - p_rx_bytes \<lparr>p_rx_bytes = 5000, p_tx_bytes = 5000, p_timestamp = 0\<rparr>\<bar> \<le> 2 ^ 53"
      "\<bar>tx_bytes (eth0 5017)
               - p_tx_bytes \<lparr>p_rx_bytes = 5000, p_tx_bytes = 5000, p_timestamp = 0\<rparr>\<bar> \<le> 2 ^ 53"
      by (simp_all add: s c i)
    note th = network_rates[OF n' s(1), of "clockEvery 272" "[]", THEN conjunct2, THEN conjunct2,
                THEN conjunct1, rule_format,
                OF conjI[OF q conjI[OF ne conjI[OF b(1) conjI[OF b(2) b(3)]]]], THEN conjunct1]
    then obtain r where r: "Num 62 = Num (of_int r)"
      "\<bar>of_int r - rat_of_int (rx_bytes (eth0 5017)
               - p_rx_bytes \<lparr>p_rx_bytes = 5000, p_tx_bytes = 5000, p_timestamp = 0\<rparr>)
            / (of_int (clock (clockEvery 272) (m_ticks seenMonitor)
               - p_timestamp \<lparr>p_rx_bytes = 5000, p_tx_bytes = 5000, p_timestamp = 0\<rparr>) / 1000)\<bar>
        \<le> 1 / 2 + \<bar>rat_of_int (rx_bytes (eth0 5017)
               - p_rx_bytes \<lparr>p_rx_bytes = 5000, p_tx_bytes = 5000, p_timestamp = 0\<rparr>)
            / (of_int (clock (clockEvery 272) (m_ticks seenMonitor)
               - p_timestamp \<lparr>p_rx_bytes = 5000, p_tx_bytes = 5000, p_timestamp = 0\<rparr>) / 1000)\<bar>
              / 2 ^ 51"
      unfolding third by blast
    have "(62::rat) = of_int r" using r(1) by simp
    then have "r = 62" by (metis of_int_eq_iff of_int_numeral)
    then show ?thesis using r(2) by (simp add: i c s)
  qed
  have s500: "rxSpeed (fst (observe (clockEvery 1000)
                      (snd (getNetworkStats (clockEvery 1000) freshMonitor [eth0 5000] []))
                      (eth0 6500))) = Num 500"
    using second[of 1000] rate_500 by simp
  have s250: "rxSpeed (fst (observe (clockEvery 2000)
                      (snd (getNetworkStats (clockEvery 2000) freshMonitor [eth0 5000] []))
                      (eth0 6500))) = Num 250"
    using second[of 2000] rate_250 by simp
  have c272: "clock (clockEvery 272) (m_ticks seenMonitor) = 272" by (simp add: c s)
  have c2000: "clock (clockEvery 2000) (m_ticks seenMonitor) = 2000" by (simp add: c s)
  show ?thesis
    using n f(1,2) first[of 1000] s500 s250 s(2) c2000 spec c272 third bound
    by (intro conjI) simp_all
qed

text \<open>
  C8 as stated fails: the reported rate is the quotient rounded to an integer, so 1000
  bytes in three seconds are reported as 333 and not as 1000 / 3; and the first
  observation of an interface named \<^verbatim>\<open>constructor\<close> finds the inherited property of
  the store and reports NaN, not 0.
\<close>

theorem network_rates_counterexample:
  "previousStats seenMonitor ''eth0''
     = Some \<lparr>p_rx_bytes = 5000, p_tx_bytes = 5000, p_timestamp = 0\<rparr>
   \<and> rx_bytes (eth0 6000) - 5000 = 1000
   \<and> clock (clockEvery 3000) (m_ticks seenMonitor) - 0 = 3000
   \<and> rxSpeed (fst (observe (clockEvery 3000) seenMonitor (eth0 6000))) = Num 333
   \<and> rxSpeed (fst (observe (clockEvery 3000) seenMonitor (eth0 6000))) \<noteq> Num (1000 / 3)
   \<and> previousStats freshMonitor ''constructor'' = None
   \<and> rxSpeed (fst (observe (clockEvery 1000) freshMonitor
                      \<lparr>iface = ''constructor'', rx_bytes = 5000, tx_bytes = 5000\<rparr>)) = NaN"
proof -
  have rd: "readPrevious seenMonitor (iface (eth0 6000))
              = Sample \<lparr>p_rx_bytes = 5000, p_tx_bytes = 5000, p_timestamp = 0\<rparr>"
    by (simp add: readPrevious_def seenMonitor_def eth0_def)
  have r: "rxSpeed (fst (observe (clockEvery 3000) seenMonitor (eth0 6000))) = Num 333"
    unfolding observe_Sample(1)[OF rd] using rate_333
    by (simp add: eth0_def clockEvery_def seenMonitor_def)
  have rk: "readPrevious freshMonitor
              (iface \<lparr>iface = ''constructor'', rx_bytes = 5000, tx_bytes = 5000\<rparr>) = Opaque"
    by (simp add: readPrevious_def freshMonitor_def objectPrototypeNames_def)
  have k: "rxSpeed (fst (observe (clockEvery 1000) freshMonitor
                      \<lparr>iface = ''constructor'', rx_bytes = 5000, tx_bytes = 5000\<rparr>)) = NaN"
    using rk by (rule observe_Opaque(1))
  show ?thesis unfolding r k
    by (simp add: seenMonitor_def freshMonitor_def eth0_def clockEvery_def)
qed

text \<open>
  C9. For an application of the roster (names being unique) that has no database
  descriptor, createBackup fails with NoDatabaseConfigured and leaves the world as it
  was: no directory is created, no file is written, no process is run.
\<close>

theorem createBackup_no_database:
  assumes "app \<in> set (applications cfg)"
    and "distinct (map name (applications cfg))"
    and "database app = None"
  shows "createBackup cfg pf (name app) w = (Inl (NoDatabaseConfigured (name app)), w)"
  using assms by (simp add: createBackup_def find_by_name)

theorem createBackup_no_database_witness:
  "createBackup demoConfig demoPlatform ''shop'' agedWorld
     = (Inl (NoDatabaseConfigured ''shop''), agedWorld)"
proof -
  have a: "appShop \<in> set (applications demoConfig)" by (simp add: demoConfig_def)
  have b: "distinct (map name (applications demoConfig))"
    by (simp add: demoConfig_def appShop_def appBlog_def appLegacy_def)
  have c: "database appShop = None" by (simp add: appShop_def)
  have n: "name appShop = ''shop''" by (simp add: appShop_def)
  show ?thesis using createBackup_no_database[OF a b c, of demoPlatform agedWorld] by (simp add: n)
qed

text \<open>
  C10. For an application of the roster (names being unique) that has no database
  descriptor, restoreBackup fails without running any command and without changing the
  world: with the TypeError of reading the engine kind from the absent descriptor when
  the artifact exists, with ArtifactNotFound when it does not, and never with
  NoDatabaseConfigured.
\<close>

theorem restoreBackup_no_database:
  assumes "app \<in> set (applications cfg)"
    and "distinct (map name (applications cfg))"
    and "database app = None"
  shows "restoreBackup cfg pf (name app) filename w =
           (Inl (case lookup (files w) (path_join (path_join [] (name app)) filename) of
                   None \<Rightarrow> ArtifactNotFound (path_join (path_join [] (name app)) filename)
                 | Some nd \<Rightarrow> TypeError ''Cannot read properties of undefined (reading 'type')''), w)
         \<and> fst (restoreBackup cfg pf (name app) filename w) \<noteq> Inl (NoDatabaseConfigured (name app))"
  using assms by (simp add: restoreBackup_def find_by_name Let_def split: option.splits)

theorem restoreBackup_no_database_witness:
  "restoreBackup demoConfig demoPlatform ''shop'' ''old.sql.gz'' agedWorld
     = (Inl (TypeError ''Cannot read properties of undefined (reading 'type')''), agedWorld)
   \<and> lookup (files agedWorld) [''shop'', ''old.sql.gz''] = Some (File 10 0)"
proof -
  have a: "appShop \<in> set (applications demoConfig)" by (simp add: demoConfig_def)
  have b: "distinct (map name (applications demoConfig))"
    by (simp add: demoConfig_def appShop_def appBlog_def appLegacy_def)
  have c: "database appShop = None" by (simp add: appShop_def)
  have n: "name appShop = ''shop''" by (simp add: appShop_def)
  have l: "lookup (files agedWorld) [''shop'', ''old.sql.gz''] = Some (File 10 0)"
    by (simp add: agedWorld_def)
  have p: "path_join (path_join [] ''shop'') ''old.sql.gz'' = [''shop'', ''old.sql.gz'']"
    by (simp add: path_join_def)
  show ?thesis
    using restoreBackup_no_database[OF a b c, of demoPlatform "''old.sql.gz''" agedWorld]
    by (simp add: n l p)
qed

end
